theory Spec2Isabelle
  imports Complex_Main
begin

section \<open>Library functions used by \<open>runMulti\<close>\<close>

text \<open>
  The command \<open>run-multi\<close> (package \<open>cmd\<close>) formats instance numbers with
  \<open>fmt.Sprintf("%d")\<close> and builds paths with \<open>filepath.Ext\<close> and
  \<open>filepath.Join\<close>. These belong to the Go standard library; they are modelled
  here after their documented behaviour on a Unix host, where the only path
  separator is \<open>/\<close> and there are no volume names. A Go string is a byte
  sequence, here a \<open>string\<close>.
\<close>

subsection \<open>Decimal formatting\<close>

definition digit_char :: "nat \<Rightarrow> char" where
  "digit_char d = ''0123456789'' ! (d mod 10)"

function digits :: "nat \<Rightarrow> string" where
  "digits n = (if n < 10 then [digit_char n] else digits (n div 10) @ [digit_char (n mod 10)])"
  by pat_completeness auto
termination
  by (relation "measure (\<lambda>n. n)") auto

declare digits.simps [simp del]

text \<open>\<open>%d\<close> of a Go \<open>int\<close>: a minus sign for negative numbers, then the decimal digits.\<close>

definition fmt_d :: "int \<Rightarrow> string" where
  "fmt_d i = (if i < 0 then CHR ''-'' # digits (nat (- i)) else digits (nat i))"

subsection \<open>\<open>filepath.Ext\<close>\<close>

text \<open>
  \<^verbatim>\<open>
  func Ext(path string) string {
      for i := len(path) - 1; i >= 0 && !os.IsPathSeparator(path[i]); i-- {
          if path[i] == '.' { return path[i:] }
      }
      return ""
  }
  \<close>
  The loop walks from the last byte towards the first. \<open>ext_scan\<close> takes the bytes
  not yet visited, in the order of the walk, and the suffix already passed.
\<close>

fun ext_scan :: "string \<Rightarrow> string \<Rightarrow> string" where
  "ext_scan [] suffix = []"
| "ext_scan (c # earlier) suffix =
     (if c = CHR ''/'' then []
      else if c = CHR ''.'' then c # suffix
      else ext_scan earlier (c # suffix))"

definition Ext :: "string \<Rightarrow> string" where
  "Ext path = ext_scan (rev path) []"

subsection \<open>\<open>filepath.Clean\<close> and \<open>filepath.Join\<close>\<close>

text \<open>
  \<open>Clean\<close> is documented by four rules: runs of separators count as one; every
  \<open>.\<close> element is dropped; every inner \<open>..\<close> element is dropped together with the
  element before it that is not \<open>..\<close>; a \<open>..\<close> that begins a rooted path is
  dropped. The empty result is \<open>.\<close>. The model works on the elements between
  separators and keeps the elements of the result on a stack, the last one on top.
\<close>

fun splitSep :: "string \<Rightarrow> string list" where
  "splitSep [] = [[]]"
| "splitSep (c # cs) =
     (if c = CHR ''/'' then [] # splitSep cs
      else (case splitSep cs of [] \<Rightarrow> [[c]] | e # es \<Rightarrow> (c # e) # es))"

definition clean_step :: "bool \<Rightarrow> string list \<Rightarrow> string \<Rightarrow> string list" where
  "clean_step rooted stack e =
     (if e = [] \<or> e = ''.'' then stack
      else if e = ''..'' then
        (case stack of
           [] \<Rightarrow> (if rooted then [] else [''..''])
         | e' # below \<Rightarrow> (if e' \<noteq> ''..'' then below
                          else if rooted then stack else ''..'' # stack))
      else e # stack)"

fun joinSep :: "string list \<Rightarrow> string" where
  "joinSep [] = []"
| "joinSep [e] = e"
| "joinSep (e # es) = e @ CHR ''/'' # joinSep es"

definition render :: "bool \<Rightarrow> string list \<Rightarrow> string" where
  "render rooted stack =
     (if rooted then CHR ''/'' # joinSep (rev stack)
      else if stack = [] then ''.'' else joinSep (rev stack))"

definition is_rooted :: "string \<Rightarrow> bool" where
  "is_rooted path = (case path of [] \<Rightarrow> False | c # _ \<Rightarrow> c = CHR ''/'')"

definition Clean :: "string \<Rightarrow> string" where
  "Clean path = render (is_rooted path) (foldl (clean_step (is_rooted path)) [] (splitSep path))"

text \<open>
  \<^verbatim>\<open>
  func join(elem []string) string {
      for i, e := range elem {
          if e != "" { return Clean(strings.Join(elem[i:], string(Separator))) }
      }
      return ""
  }
  \<close>
\<close>

definition Join :: "string list \<Rightarrow> string" where
  "Join elem = (case dropWhile (\<lambda>e. e = []) elem of [] \<Rightarrow> [] | es \<Rightarrow> Clean (joinSep es))"

section \<open>The command \<open>run-multi\<close>\<close>

subsection \<open>Flags\<close>

text \<open>
  The package variables set by the flag parser. A Go \<open>int\<close> is modelled by
  \<open>int\<close>: the only arithmetic on it is the loop counter, which stays below 33.
  The bandwidth is a \<open>float64\<close> that is copied and printed, never computed with.
\<close>

record flags =
  multiInstances :: int
  multiMaxClients :: int
  multiBandwidthMbps :: real
  multiPsiphonConfig :: string
  multiStatsFilePattern :: string

text \<open>
  \<^verbatim>\<open>
  multiCmd.Flags().StringVarP(&multiStatsFilePattern, "stats-file", "s", "", ...)
  multiCmd.Flags().Lookup("stats-file").NoOptDefVal = "stats.json"
  \<close>
  A string flag has a default value and a value taken when the flag is given
  without one (\<open>NoOptDefVal\<close>). On the command line a flag with a non-empty
  \<open>NoOptDefVal\<close> takes a value only in the form \<open>--flag=value\<close>; each
  occurrence sets the variable, in order.
\<close>

record string_flag =
  DefValue :: string
  NoOptDefVal :: string

datatype occurrence = NoValue | WithValue string

definition stats_file_flag :: string_flag where
  "stats_file_flag = \<lparr>DefValue = [], NoOptDefVal = ''stats.json''\<rparr>"

definition set_flag :: "string_flag \<Rightarrow> string \<Rightarrow> occurrence \<Rightarrow> string" where
  "set_flag f current occ = (case occ of NoValue \<Rightarrow> NoOptDefVal f | WithValue v \<Rightarrow> v)"

definition parse_flag :: "string_flag \<Rightarrow> occurrence list \<Rightarrow> string" where
  "parse_flag f occs = foldl (set_flag f) (DefValue f) occs"

subsection \<open>Results and observable actions\<close>

text \<open>An error returned by a collaborator outside this file is an opaque value.\<close>

type_synonym cause = string

datatype error =
    InstancesOutOfRange
  | PsiphonConfigNotFound string
  | PsiphonConfigRequired
  | BaseDirFailed cause
  | InstanceConfigFailed int cause
  | MultiServiceFailed cause
  | MultiServiceError cause

record Options =
  DataDir :: string
  PsiphonConfigPath :: string
  UseEmbeddedConfig :: bool
  MaxClients :: int
  BandwidthMbps :: real
  Verbosity :: int
  StatsFile :: string

datatype event =
    EvStat string
  | EvMkdirAll string
  | EvLoadOrCreate Options
  | EvNewMultiService nat
  | EvSignalNotify
  | EvStartupMessage int int real
  | EvRun
  | EvPrintln string
  | EvCancel

subsection \<open>Collaborators\<close>

text \<open>
  What \<open>runMulti\<close> calls outside its own source file: the file system, the packages
  \<open>config\<close> and \<open>conduit\<close>, and the operating system's signals.
\<close>

datatype sig_event = SignalDelivered | HandlerStep

record ('cfg, 'svc) env =
  statNotExist :: "string \<Rightarrow> bool"
  HasEmbeddedConfig :: bool
  GetDataDir :: string
  MkdirAll :: "string \<Rightarrow> cause option"
  cmdVerbosity :: int
  LoadOrCreate :: "Options \<Rightarrow> cause + 'cfg"
  NewMultiService :: "'cfg list \<Rightarrow> cause + 'svc"
  Run :: "'svc \<Rightarrow> cause option"
  schedule :: "sig_event list"

text \<open>
  \<open>statNotExist p\<close> is \<open>os.IsNotExist(err)\<close> for the error of \<open>os.Stat(p)\<close>.
  \<open>Run svc\<close> is the error returned by \<open>multiService.Run(ctx)\<close>, \<open>None\<close> for
  \<open>nil\<close>. \<open>schedule\<close> lists what happens concurrently with \<open>Run\<close>, up to
  the moment \<open>ctx.Err()\<close> is read: signals delivered by the operating system
  and steps of the goroutine that waits for them.
\<close>

subsection \<open>The shutdown goroutine\<close>

text \<open>
  \<^verbatim>\<open>
  ctx, cancel := context.WithCancel(context.Background())
  defer cancel()
  sigChan := make(chan os.Signal, 1)
  signal.Notify(sigChan, syscall.SIGINT, syscall.SIGTERM)
  go func() {
      <-sigChan
      fmt.Println("\nShutting down all instances...")
      cancel()
  }()
  \<close>
  \<open>signal.Notify\<close> sends to the channel without blocking: a signal that finds
  the buffer of one slot full is dropped. A cancel function closes the context's
  \<open>Done\<close> channel on its first call and does nothing afterwards.
\<close>

datatype handler_pc = Waiting | Received | Printed | Finished

record sig_state =
  buffered :: nat
  pc :: handler_pc
  ctxCancelled :: bool
  doneClosed :: nat
  emitted :: "event list"

definition shutdown_notice :: string where
  "shutdown_notice = CHR 0x0A # ''Shutting down all instances...''"

definition sig_init :: sig_state where
  "sig_init = \<lparr>buffered = 0, pc = Waiting, ctxCancelled = False, doneClosed = 0, emitted = []\<rparr>"

definition cancel :: "sig_state \<Rightarrow> sig_state" where
  "cancel s = (if ctxCancelled s then s
               else s\<lparr>ctxCancelled := True, doneClosed := doneClosed s + 1\<rparr>)"

fun sig_step :: "sig_state \<Rightarrow> sig_event \<Rightarrow> sig_state" where
  "sig_step s SignalDelivered = (if buffered s < 1 then s\<lparr>buffered := buffered s + 1\<rparr> else s)"
| "sig_step s HandlerStep =
     (case pc s of
        Waiting \<Rightarrow> (if 0 < buffered s then s\<lparr>buffered := buffered s - 1, pc := Received\<rparr> else s)
      | Received \<Rightarrow> s\<lparr>pc := Printed, emitted := emitted s @ [EvPrintln shutdown_notice]\<rparr>
      | Printed \<Rightarrow> (cancel s)\<lparr>pc := Finished, emitted := emitted s @ [EvCancel]\<rparr>
      | Finished \<Rightarrow> s)"

definition run_signals :: "sig_event list \<Rightarrow> sig_state" where
  "run_signals sched = foldl sig_step sig_init sched"

subsection \<open>Instance configurations\<close>

text \<open>
  The body of the loop up to the call of \<open>config.LoadOrCreate\<close>:
  \<^verbatim>\<open>
  instanceDataDir := filepath.Join(baseDataDir, fmt.Sprintf("instance-%d", i))
  var statsFile string
  if multiStatsFilePattern != "" {
      ext := filepath.Ext(multiStatsFilePattern)
      base := multiStatsFilePattern[:len(multiStatsFilePattern)-len(ext)]
      statsFile = filepath.Join(baseDataDir, fmt.Sprintf("%s-instance-%d%s", base, i, ext))
  }
  \<close>
\<close>

definition statsFileFor :: "string \<Rightarrow> string \<Rightarrow> int \<Rightarrow> string" where
  "statsFileFor baseDataDir pattern i =
     (if pattern \<noteq> [] then
        (let ext = Ext pattern;
             base = take (length pattern - length ext) pattern
         in Join [baseDataDir, base @ ''-instance-'' @ fmt_d i @ ext])
      else [])"

definition instanceOptions ::
  "('cfg, 'svc) env \<Rightarrow> flags \<Rightarrow> string \<Rightarrow> string \<Rightarrow> bool \<Rightarrow> int \<Rightarrow> Options" where
  "instanceOptions env fl baseDataDir effectiveConfigPath useEmbedded i =
     \<lparr>DataDir = Join [baseDataDir, ''instance-'' @ fmt_d i],
      PsiphonConfigPath = effectiveConfigPath,
      UseEmbeddedConfig = useEmbedded,
      MaxClients = multiMaxClients fl,
      BandwidthMbps = multiBandwidthMbps fl,
      Verbosity = cmdVerbosity env,
      StatsFile = statsFileFor baseDataDir (multiStatsFilePattern fl) i\<rparr>"

text \<open>
  The loop \<open>for i := 0; i < multiInstances; i++\<close>: it returns at the first
  instance whose configuration fails, and otherwise appends the configuration.
\<close>

function buildConfigs ::
  "('cfg, 'svc) env \<Rightarrow> flags \<Rightarrow> string \<Rightarrow> string \<Rightarrow> bool \<Rightarrow> int \<Rightarrow> 'cfg list
     \<Rightarrow> (error + 'cfg list) \<times> event list" where
  "buildConfigs env fl baseDataDir effectiveConfigPath useEmbedded i instanceConfigs =
     (if i < multiInstances fl then
        (let opts = instanceOptions env fl baseDataDir effectiveConfigPath useEmbedded i in
         case LoadOrCreate env opts of
           Inl err \<Rightarrow> (Inl (InstanceConfigFailed i err), [EvLoadOrCreate opts])
         | Inr cfg \<Rightarrow>
             (case buildConfigs env fl baseDataDir effectiveConfigPath useEmbedded (i + 1)
                     (instanceConfigs @ [cfg]) of
                (r, tr) \<Rightarrow> (r, EvLoadOrCreate opts # tr)))
      else (Inr instanceConfigs, []))"
  by pat_completeness auto
termination
  by (relation "measure (\<lambda>(env, fl, b, p, u, i, acc). nat (multiInstances fl - i))") auto

declare buildConfigs.simps [simp del]

subsection \<open>\<open>runMulti\<close>\<close>

text \<open>
  The function is given in three parts, in the order of its text: creating the
  base directory, the configurations and the service, then the context, the
  signal handling and \<open>Run\<close>, and last the whole function with the checks it
  begins with. A result is paired with the actions performed, in order.
\<close>

definition createService ::
  "('cfg, 'svc) env \<Rightarrow> flags \<Rightarrow> string \<Rightarrow> bool \<Rightarrow> (error + 'svc) \<times> event list" where
  "createService env fl effectiveConfigPath useEmbedded =
     (let baseDataDir = GetDataDir env in
      case MkdirAll env baseDataDir of
        Some err \<Rightarrow> (Inl (BaseDirFailed err), [EvMkdirAll baseDataDir])
      | None \<Rightarrow>
          (case buildConfigs env fl baseDataDir effectiveConfigPath useEmbedded 0 [] of
             (Inl e, tr) \<Rightarrow> (Inl e, EvMkdirAll baseDataDir # tr)
           | (Inr instanceConfigs, tr) \<Rightarrow>
               (case NewMultiService env instanceConfigs of
                  Inl err \<Rightarrow>
                    (Inl (MultiServiceFailed err),
                     EvMkdirAll baseDataDir # tr @ [EvNewMultiService (length instanceConfigs)])
                | Inr multiService \<Rightarrow>
                    (Inr multiService,
                     EvMkdirAll baseDataDir # tr @ [EvNewMultiService (length instanceConfigs)]))))"

text \<open>
  What the shutdown goroutine emits is placed after the start of \<open>Run\<close>. The
  returned error is \<open>None\<close> for \<open>nil\<close>. The deferred \<open>cancel()\<close> is the last
  action on both ways out. The startup message is recorded with the three values
  it prints, not with its text.
  \<^verbatim>\<open>
  if err := multiService.Run(ctx); err != nil && ctx.Err() == nil {
      return fmt.Errorf("multi-instance service error: %w", err)
  }
  fmt.Println("All instances stopped.")
  return nil
  \<close>
\<close>

definition all_stopped :: string where
  "all_stopped = ''All instances stopped.''"

definition runService ::
  "('cfg, 'svc) env \<Rightarrow> flags \<Rightarrow> 'svc \<Rightarrow> error option \<times> event list" where
  "runService env fl multiService =
     (let s = run_signals (schedule env);
          started = [EvSignalNotify,
                     EvStartupMessage (multiInstances fl) (multiMaxClients fl) (multiBandwidthMbps fl),
                     EvRun] @ emitted s
      in case Run env multiService of
           Some err \<Rightarrow>
             (if \<not> ctxCancelled s then (Some (MultiServiceError err), started @ [EvCancel])
              else (None, started @ [EvPrintln all_stopped, EvCancel]))
         | None \<Rightarrow> (None, started @ [EvPrintln all_stopped, EvCancel]))"

definition setupMulti :: "('cfg, 'svc) env \<Rightarrow> flags \<Rightarrow> (error + 'svc) \<times> event list" where
  "setupMulti env fl =
     (if multiInstances fl < 1 \<or> multiInstances fl > 32 then (Inl InstancesOutOfRange, [])
      else if multiPsiphonConfig fl \<noteq> [] then
        (if statNotExist env (multiPsiphonConfig fl)
         then (Inl (PsiphonConfigNotFound (multiPsiphonConfig fl)), [EvStat (multiPsiphonConfig fl)])
         else (case createService env fl (multiPsiphonConfig fl) False of
                 (r, tr) \<Rightarrow> (r, EvStat (multiPsiphonConfig fl) # tr)))
      else if HasEmbeddedConfig env then createService env fl (multiPsiphonConfig fl) True
      else (Inl PsiphonConfigRequired, []))"

definition runMulti :: "('cfg, 'svc) env \<Rightarrow> flags \<Rightarrow> error option \<times> event list" where
  "runMulti env fl =
     (case setupMulti env fl of
        (Inl e, tr) \<Rightarrow> (Some e, tr)
      | (Inr multiService, tr) \<Rightarrow>
          (case runService env fl multiService of (r, tr') \<Rightarrow> (r, tr @ tr')))"

text \<open>The options handed to \<open>config.LoadOrCreate\<close>, in the order of the calls.\<close>

fun requestedOptions :: "event list \<Rightarrow> Options list" where
  "requestedOptions [] = []"
| "requestedOptions (EvLoadOrCreate opts # evs) = opts # requestedOptions evs"
| "requestedOptions (ev # evs) = requestedOptions evs"

subsection \<open>The stem and the extension of a pattern, as the specification words them\<close>

text \<open>
  The specification says that the pattern is split into stem and extension at
  its last dot. \<open>split_at_last_dot\<close> is that reading, kept apart from \<open>Ext\<close>: a
  pattern without a dot has the empty extension.
\<close>

definition split_at_last_dot :: "string \<Rightarrow> string \<times> string" where
  "split_at_last_dot s =
     (if CHR ''.'' \<in> set s then
        (let after = rev (takeWhile (\<lambda>c. c \<noteq> CHR ''.'') (rev s))
         in (take (length s - length after - 1) s, CHR ''.'' # after))
      else (s, []))"

text \<open>
  The narrower reading: only a dot in the final element of the pattern, the part
  after the last separator, begins an extension.
\<close>

definition final_element :: "string \<Rightarrow> string" where
  "final_element s = rev (takeWhile (\<lambda>c. c \<noteq> CHR ''/'') (rev s))"

definition split_at_final_element_dot :: "string \<Rightarrow> string \<times> string" where
  "split_at_final_element_dot s =
     (if CHR ''.'' \<in> set (final_element s) then split_at_last_dot s else (s, []))"

subsection \<open>Example runs\<close>

text \<open>
  A host on which the file \<open>psiphon.json\<close> exists and every collaborator
  succeeds, except that \<open>Run\<close> ends with an error; the configuration returned by
  \<open>config.LoadOrCreate\<close> is represented by the options it was given, the service
  by its configurations.
\<close>

definition example_env :: "sig_event list \<Rightarrow> (Options, Options list) env" where
  "example_env sched =
     \<lparr>statNotExist = (\<lambda>p. p \<noteq> ''psiphon.json''),
      HasEmbeddedConfig = False,
      GetDataDir = ''/tmp/x'',
      MkdirAll = (\<lambda>p. None),
      cmdVerbosity = 0,
      LoadOrCreate = (\<lambda>opts. Inr opts),
      NewMultiService = (\<lambda>cfgs. Inr cfgs),
      Run = (\<lambda>svc. Some ''inproxy failed''),
      schedule = sched\<rparr>"

definition example_flags :: "int \<Rightarrow> string \<Rightarrow> flags" where
  "example_flags n pattern =
     \<lparr>multiInstances = n, multiMaxClients = 50, multiBandwidthMbps = 40,
      multiPsiphonConfig = ''psiphon.json'', multiStatsFilePattern = pattern\<rparr>"

text \<open>The same host with an embedded configuration, and command lines that differ in the path.\<close>

definition embedded_env :: "(Options, Options list) env" where
  "embedded_env = (example_env [])\<lparr>HasEmbeddedConfig := True\<rparr>"

definition no_path_flags :: flags where
  "no_path_flags = (example_flags 2 [])\<lparr>multiPsiphonConfig := []\<rparr>"

definition missing_path_flags :: flags where
  "missing_path_flags = (example_flags 2 [])\<lparr>multiPsiphonConfig := ''missing.json''\<rparr>"

text \<open>
  A host on which \<open>config.LoadOrCreate\<close> fails for the second instance; the
  base directory exists, the file \<open>psiphon.json\<close> exists.
\<close>

definition failing_env :: "(Options, Options list) env" where
  "failing_env =
     (example_env [])\<lparr>LoadOrCreate :=
        (\<lambda>opts. if DataDir opts = ''/tmp/x/instance-1'' then Inl ''cannot write key''
                else Inr opts)\<rparr>"

section \<open>Metric registration (package \<open>metrics\<close>)\<close>

subsection \<open>The Prometheus registry\<close>

text \<open>
  The helpers call \<open>prometheus.NewGauge\<close>, \<open>NewGaugeVec\<close>, \<open>NewGaugeFunc\<close> and
  \<open>prometheus.Register\<close> of the client library. The library is modelled after
  its documentation, for collectors with one descriptor: a descriptor is
  identified by its fully-qualified name; \<open>Register\<close> refuses an invalid
  descriptor, refuses a name already registered with another help string or
  other label names, and answers \<open>AlreadyRegisteredError\<close>, which carries the
  registered collector, when an equal descriptor is registered. Constant labels
  and the syntax of names beyond emptiness are left out. A collector is an
  object: \<open>addr\<close> is its identity.
\<close>

record GaugeOpts =
  Name :: string
  Help :: string

record Desc =
  fqName :: string
  helpText :: string
  labelNames :: "string list"

datatype kind = GaugeKind | GaugeVecKind | GaugeFuncKind

record collector =
  addr :: nat
  kind :: kind
  desc :: Desc
  valueFunction :: "(unit \<Rightarrow> real) option"

datatype reg_error =
    AlreadyRegisteredError collector collector
  | InvalidDescriptor
  | InconsistentDescriptor

record registry =
  nextAddr :: nat
  registered :: "collector list"

definition allocate ::
  "registry \<Rightarrow> kind \<Rightarrow> GaugeOpts \<Rightarrow> string list \<Rightarrow> (unit \<Rightarrow> real) option
     \<Rightarrow> collector \<times> registry" where
  "allocate st k gaugeOpts labels f =
     (\<lparr>addr = nextAddr st, kind = k,
       desc = \<lparr>fqName = Name gaugeOpts, helpText = Help gaugeOpts, labelNames = labels\<rparr>,
       valueFunction = f\<rparr>,
      st\<lparr>nextAddr := nextAddr st + 1\<rparr>)"

definition NewGauge :: "registry \<Rightarrow> GaugeOpts \<Rightarrow> collector \<times> registry" where
  "NewGauge st gaugeOpts = allocate st GaugeKind gaugeOpts [] None"

definition NewGaugeVec :: "registry \<Rightarrow> GaugeOpts \<Rightarrow> string list \<Rightarrow> collector \<times> registry" where
  "NewGaugeVec st gaugeOpts labels = allocate st GaugeVecKind gaugeOpts labels None"

definition NewGaugeFunc ::
  "registry \<Rightarrow> GaugeOpts \<Rightarrow> (unit \<Rightarrow> real) \<Rightarrow> collector \<times> registry" where
  "NewGaugeFunc st gaugeOpts function = allocate st GaugeFuncKind gaugeOpts [] (Some function)"

definition Register :: "registry \<Rightarrow> collector \<Rightarrow> registry \<times> reg_error option" where
  "Register st c =
     (if fqName (desc c) = [] then (st, Some InvalidDescriptor)
      else case find (\<lambda>e. fqName (desc e) = fqName (desc c)) (registered st) of
             Some existing \<Rightarrow>
               (if helpText (desc existing) = helpText (desc c)
                   \<and> labelNames (desc existing) = labelNames (desc c)
                then (st, Some (AlreadyRegisteredError existing c))
                else (st, Some InconsistentDescriptor))
           | None \<Rightarrow> (st\<lparr>registered := registered st @ [c]\<rparr>, None))"

text \<open>
  The type assertions. \<open>prometheus.Gauge\<close> is an interface with the methods of a
  metric, of a collector and the setters of a gauge; \<open>prometheus.GaugeFunc\<close> is
  the interface of a metric and a collector alone, which a gauge has as well;
  \<open>*prometheus.GaugeVec\<close> is a concrete type.
\<close>

definition asGauge :: "collector \<Rightarrow> bool" where
  "asGauge c = (kind c = GaugeKind)"

definition asGaugeVec :: "collector \<Rightarrow> bool" where
  "asGaugeVec c = (kind c = GaugeVecKind)"

definition asGaugeFunc :: "collector \<Rightarrow> bool" where
  "asGaugeFunc c = (kind c = GaugeFuncKind \<or> kind c = GaugeKind)"

subsection \<open>The helpers\<close>

text \<open>
  \<^verbatim>\<open>
  func newGauge(gaugeOpts prometheus.GaugeOpts) prometheus.Gauge {
      ev := prometheus.NewGauge(gaugeOpts)
      err := prometheus.Register(ev)
      if err != nil {
          var are prometheus.AlreadyRegisteredError
          if ok := errors.As(err, &are); ok {
              ev, ok = are.ExistingCollector.(prometheus.Gauge)
              if !ok { panic("different metric type registration") }
          } else { panic(err) }
      }
      return ev
  }
  \<close>
  The three helpers differ in the constructor and in the type asserted; the
  part after the constructor is \<open>registerOrExisting\<close>. A helper has no error
  result: it returns a collector or panics.
\<close>

datatype panic_value = PanicString string | PanicError reg_error

datatype outcome = Returned collector | Panic panic_value

definition different_type :: string where
  "different_type = ''different metric type registration''"

definition registerOrExisting ::
  "(collector \<Rightarrow> bool) \<Rightarrow> collector \<times> registry \<Rightarrow> registry \<times> outcome" where
  "registerOrExisting assertType new =
     (case new of (ev, st) \<Rightarrow>
        (case Register st ev of
           (st', None) \<Rightarrow> (st', Returned ev)
         | (st', Some (AlreadyRegisteredError existingCollector newCollector)) \<Rightarrow>
             (if assertType existingCollector then (st', Returned existingCollector)
              else (st', Panic (PanicString different_type)))
         | (st', Some err) \<Rightarrow> (st', Panic (PanicError err))))"

definition newGauge :: "registry \<Rightarrow> GaugeOpts \<Rightarrow> registry \<times> outcome" where
  "newGauge st gaugeOpts = registerOrExisting asGauge (NewGauge st gaugeOpts)"

definition newGaugeVec :: "registry \<Rightarrow> GaugeOpts \<Rightarrow> string list \<Rightarrow> registry \<times> outcome" where
  "newGaugeVec st gaugeOpts labels = registerOrExisting asGaugeVec (NewGaugeVec st gaugeOpts labels)"

definition newGaugeFunc ::
  "registry \<Rightarrow> GaugeOpts \<Rightarrow> (unit \<Rightarrow> real) \<Rightarrow> registry \<times> outcome" where
  "newGaugeFunc st gaugeOpts function =
     registerOrExisting asGaugeFunc (NewGaugeFunc st gaugeOpts function)"

definition empty_registry :: registry where
  "empty_registry = \<lparr>nextAddr = 0, registered = []\<rparr>"

definition example_opts :: GaugeOpts where
  "example_opts = \<lparr>Name = ''conduit_connected_clients'', Help = ''Connected clients''\<rparr>"

text \<open>The registry after a first \<open>newGauge example_opts\<close>, and the gauge it holds.\<close>

definition first_gauge :: collector where
  "first_gauge =
     \<lparr>addr = 0, kind = GaugeKind,
      desc = \<lparr>fqName = ''conduit_connected_clients'', helpText = ''Connected clients'',
              labelNames = []\<rparr>,
      valueFunction = None\<rparr>"

definition registered_once :: registry where
  "registered_once = \<lparr>nextAddr = 1, registered = [first_gauge]\<rparr>"

text \<open>Options with the name of \<open>example_opts\<close> and another help text.\<close>

definition other_help_opts :: GaugeOpts where
  "other_help_opts = \<lparr>Name = ''conduit_connected_clients'', Help = ''Clients''\<rparr>"

section \<open>Properties of \<open>runMulti\<close>\<close>

subsection \<open>The result of the run\<close>

lemma run_signals_no_signal_aux:
  "SignalDelivered \<notin> set sched \<Longrightarrow> buffered s = 0 \<Longrightarrow> pc s = Waiting \<Longrightarrow>
   foldl sig_step s sched = s"
proof (induction sched arbitrary: s)
  case Nil
  then show ?case by simp
next
  case (Cons a sched)
  then have a: "a = HandlerStep" by (cases a) auto
  have "sig_step s a = s" using Cons.prems by (simp add: a)
  then show ?case using Cons by simp
qed

lemma no_signal_not_cancelled:
  "SignalDelivered \<notin> set sched \<Longrightarrow> \<not> ctxCancelled (run_signals sched)"
  by (simp add: run_signals_def run_signals_no_signal_aux sig_init_def)

text \<open>
  Claim C1. Once the multi-instance service has been created, \<open>runMulti\<close>
  returns \<open>nil\<close> whenever the context is cancelled when \<open>Run\<close> has returned,
  whatever \<open>Run\<close> returned; when the context is not cancelled and \<open>Run\<close>
  returned an error, \<open>runMulti\<close> returns a failure that carries this error. A
  run in which no signal was delivered ends with the context not cancelled.
\<close>

theorem runMulti_result_after_Run:
  assumes "setupMulti env fl = (Inr svc, tr)"
  shows "(ctxCancelled (run_signals (schedule env)) \<longrightarrow> fst (runMulti env fl) = None) \<and>
         (\<not> ctxCancelled (run_signals (schedule env)) \<and> Run env svc = Some err \<longrightarrow>
            fst (runMulti env fl) = Some (MultiServiceError err)) \<and>
         (SignalDelivered \<notin> set (schedule env) \<longrightarrow> \<not> ctxCancelled (run_signals (schedule env)))"
  using assms
  by (auto simp: runMulti_def runService_def Let_def no_signal_not_cancelled split: option.splits)

theorem runMulti_result_after_Run_witness:
  "setupMulti (example_env [SignalDelivered, HandlerStep, HandlerStep, HandlerStep]) (example_flags 2 []) =
     (Inr (map (instanceOptions (example_env []) (example_flags 2 []) ''/tmp/x'' ''psiphon.json'' False) [0, 1]),
      [EvStat ''psiphon.json'', EvMkdirAll ''/tmp/x'']
        @ map (\<lambda>i. EvLoadOrCreate (instanceOptions (example_env []) (example_flags 2 []) ''/tmp/x'' ''psiphon.json'' False i)) [0, 1]
        @ [EvNewMultiService 2]) \<and>
   ctxCancelled (run_signals (schedule (example_env [SignalDelivered, HandlerStep, HandlerStep, HandlerStep]))) \<and>
   fst (runMulti (example_env [SignalDelivered, HandlerStep, HandlerStep, HandlerStep]) (example_flags 2 [])) = None \<and>
   setupMulti (example_env []) (example_flags 2 []) =
     (Inr (map (instanceOptions (example_env []) (example_flags 2 []) ''/tmp/x'' ''psiphon.json'' False) [0, 1]),
      [EvStat ''psiphon.json'', EvMkdirAll ''/tmp/x'']
        @ map (\<lambda>i. EvLoadOrCreate (instanceOptions (example_env []) (example_flags 2 []) ''/tmp/x'' ''psiphon.json'' False i)) [0, 1]
        @ [EvNewMultiService 2]) \<and>
   SignalDelivered \<notin> set (schedule (example_env [])) \<and>
   \<not> ctxCancelled (run_signals (schedule (example_env []))) \<and>
   Run (example_env [])
     (map (instanceOptions (example_env []) (example_flags 2 []) ''/tmp/x'' ''psiphon.json'' False) [0, 1])
     = Some ''inproxy failed'' \<and>
   fst (runMulti (example_env []) (example_flags 2 [])) = Some (MultiServiceError ''inproxy failed'')"
proof -
  let ?E1 = "example_env [SignalDelivered, HandlerStep, HandlerStep, HandlerStep]"
  let ?E2 = "example_env []"
  let ?F = "example_flags 2 []"
  let ?svc = "map (instanceOptions ?E2 ?F ''/tmp/x'' ''psiphon.json'' False) [0, 1]"
  let ?tr = "[EvStat ''psiphon.json'', EvMkdirAll ''/tmp/x'']
        @ map (\<lambda>i. EvLoadOrCreate (instanceOptions ?E2 ?F ''/tmp/x'' ''psiphon.json'' False i)) [0, 1]
        @ [EvNewMultiService 2]"
  have s1: "setupMulti ?E1 ?F = (Inr ?svc, ?tr)" by code_simp
  have s2: "setupMulti ?E2 ?F = (Inr ?svc, ?tr)" by code_simp
  have c1: "ctxCancelled (run_signals (schedule ?E1))" by code_simp
  have n2: "SignalDelivered \<notin> set (schedule ?E2)" by (simp add: example_env_def)
  have r2: "Run ?E2 ?svc = Some ''inproxy failed''" by (simp add: example_env_def)
  from runMulti_result_after_Run [OF s1] c1
  have a: "fst (runMulti ?E1 ?F) = None" by blast
  from runMulti_result_after_Run [OF s2, of "''inproxy failed''"] n2 r2
  have b: "\<not> ctxCancelled (run_signals (schedule ?E2))"
    and c: "fst (runMulti ?E2 ?F) = Some (MultiServiceError ''inproxy failed'')" by blast+
  from s1 s2 c1 n2 r2 a b c show ?thesis by blast
qed

subsection \<open>The instance count\<close>

text \<open>
  Claim C3. When the requested number of instances is below 1 or above 32,
  \<open>runMulti\<close> returns the configuration error at once: no action has been
  performed, so no file was examined, no directory created, no configuration
  built and no service created or started.
\<close>

theorem runMulti_rejects_instance_count:
  "multiInstances fl < 1 \<or> multiInstances fl > 32 \<Longrightarrow> runMulti env fl = (Some InstancesOutOfRange, [])"
  by (simp add: runMulti_def setupMulti_def)

theorem runMulti_rejects_instance_count_witness:
  "(multiInstances (example_flags 0 ''stats.json'') < 1 \<or> multiInstances (example_flags 0 ''stats.json'') > 32) \<and>
   runMulti (example_env []) (example_flags 0 ''stats.json'') = (Some InstancesOutOfRange, []) \<and>
   (multiInstances (example_flags 33 ''stats.json'') < 1 \<or> multiInstances (example_flags 33 ''stats.json'') > 32) \<and>
   runMulti (example_env []) (example_flags 33 ''stats.json'') = (Some InstancesOutOfRange, [])"
proof -
  have h0: "multiInstances (example_flags 0 ''stats.json'') < 1 \<or> multiInstances (example_flags 0 ''stats.json'') > 32"
    by (simp add: example_flags_def)
  have h33: "multiInstances (example_flags 33 ''stats.json'') < 1 \<or> multiInstances (example_flags 33 ''stats.json'') > 32"
    by (simp add: example_flags_def)
  from runMulti_rejects_instance_count [OF h0, of "example_env []"]
       runMulti_rejects_instance_count [OF h33, of "example_env []"] h0 h33
  show ?thesis by blast
qed

subsection \<open>The loop over the instances and the actions before \<open>Run\<close>\<close>

lemma buildConfigs_cases:
  "(\<exists>cfgs. buildConfigs env fl b p u i acc =
             (Inr (acc @ cfgs), map (\<lambda>j. EvLoadOrCreate (instanceOptions env fl b p u j)) [i..multiInstances fl - 1])
           \<and> map Inr cfgs = map (\<lambda>j. LoadOrCreate env (instanceOptions env fl b p u j)) [i..multiInstances fl - 1])
   \<or> (\<exists>k err. i \<le> k \<and> k < multiInstances fl
           \<and> LoadOrCreate env (instanceOptions env fl b p u k) = Inl err
           \<and> (\<forall>j. i \<le> j \<and> j < k \<longrightarrow> (\<exists>c. LoadOrCreate env (instanceOptions env fl b p u j) = Inr c))
           \<and> buildConfigs env fl b p u i acc =
               (Inl (InstanceConfigFailed k err),
                map (\<lambda>j. EvLoadOrCreate (instanceOptions env fl b p u j)) [i..k]))"
proof (induction env fl b p u i acc rule: buildConfigs.induct)
  case (1 env fl b p u i acc)
  let ?opts = "instanceOptions env fl b p u"
  show ?case
  proof (cases "i < multiInstances fl")
    case False
    then have "buildConfigs env fl b p u i acc = (Inr acc, [])"
      by (simp add: buildConfigs.simps)
    moreover from False have "[i..multiInstances fl - 1] = []" by simp
    ultimately show ?thesis by simp
  next
    case lt: True
    show ?thesis
    proof (cases "LoadOrCreate env (?opts i)")
      case (Inl err)
      then have "buildConfigs env fl b p u i acc = (Inl (InstanceConfigFailed i err), [EvLoadOrCreate (?opts i)])"
        using lt by (simp add: buildConfigs.simps)
      with Inl lt show ?thesis
        by (intro disjI2 exI[of _ i] exI[of _ err]) auto
    next
      case (Inr cfg)
      have step: "buildConfigs env fl b p u i acc =
          (case buildConfigs env fl b p u (i + 1) (acc @ [cfg]) of (r, tr) \<Rightarrow> (r, EvLoadOrCreate (?opts i) # tr))"
        using lt Inr by (subst buildConfigs.simps) simp
      have up: "[i..multiInstances fl - 1] = i # [i + 1..multiInstances fl - 1]"
        using lt by (simp add: upto_rec1)
      from "1.IH"[OF lt refl Inr]
      consider (ok) cfgs where
          "buildConfigs env fl b p u (i + 1) (acc @ [cfg]) =
             ((Inr ((acc @ [cfg]) @ cfgs)), map (\<lambda>j. EvLoadOrCreate (?opts j)) [i + 1..multiInstances fl - 1])"
          "map Inr cfgs = map (\<lambda>j. LoadOrCreate env (?opts j)) [i + 1..multiInstances fl - 1]"
        | (bad) k err where "i + 1 \<le> k" "k < multiInstances fl"
          "LoadOrCreate env (?opts k) = Inl err"
          "\<forall>j. i + 1 \<le> j \<and> j < k \<longrightarrow> (\<exists>c. LoadOrCreate env (?opts j) = Inr c)"
          "buildConfigs env fl b p u (i + 1) (acc @ [cfg]) =
             (Inl (InstanceConfigFailed k err), map (\<lambda>j. EvLoadOrCreate (?opts j)) [i + 1..k])"
        by blast
      then show ?thesis
      proof cases
        case ok
        have "buildConfigs env fl b p u i acc =
                (Inr (acc @ (cfg # cfgs)), map (\<lambda>j. EvLoadOrCreate (?opts j)) [i..multiInstances fl - 1])"
          using step ok(1) up by simp
        moreover have "map Inr (cfg # cfgs) = map (\<lambda>j. LoadOrCreate env (?opts j)) [i..multiInstances fl - 1]"
          using ok(2) up Inr by simp
        ultimately show ?thesis by blast
      next
        case bad
        have upk: "[i..k] = i # [i + 1..k]" using bad(1) by (simp add: upto_rec1)
        have "buildConfigs env fl b p u i acc =
                (Inl (InstanceConfigFailed k err), map (\<lambda>j. EvLoadOrCreate (?opts j)) [i..k])"
          using step bad(5) upk by simp
        moreover have "\<forall>j. i \<le> j \<and> j < k \<longrightarrow> (\<exists>c. LoadOrCreate env (?opts j) = Inr c)"
        proof (intro allI impI)
          fix j assume "i \<le> j \<and> j < k"
          then consider "j = i" | "i + 1 \<le> j \<and> j < k" by linarith
          then show "\<exists>c. LoadOrCreate env (?opts j) = Inr c"
            using Inr bad(4) by cases auto
        qed
        moreover have "i \<le> k" using bad(1) by simp
        ultimately show ?thesis using bad(2,3) by blast
      qed
    qed
  qed
qed

lemma buildConfigs_trace:
  "ev \<in> set (snd (buildConfigs env fl b p u i acc)) \<Longrightarrow>
   \<exists>j. ev = EvLoadOrCreate (instanceOptions env fl b p u j)"
  using buildConfigs_cases [of env fl b p u i acc] by auto

lemma createService_trace:
  assumes "ev \<in> set (snd (createService env fl p u))"
  shows "ev = EvMkdirAll (GetDataDir env)
         \<or> (\<exists>j. ev = EvLoadOrCreate (instanceOptions env fl (GetDataDir env) p u j))
         \<or> (\<exists>n. ev = EvNewMultiService n)"
proof -
  obtain r tr where bc: "buildConfigs env fl (GetDataDir env) p u 0 [] = (r, tr)"
    by (cases "buildConfigs env fl (GetDataDir env) p u 0 []")
  have tr: "\<And>e. e \<in> set tr \<Longrightarrow> \<exists>j. e = EvLoadOrCreate (instanceOptions env fl (GetDataDir env) p u j)"
    using buildConfigs_trace [of _ env fl "GetDataDir env" p u 0 "[]"] bc by simp
  from assms bc show ?thesis
    by (auto simp: createService_def Let_def split: option.splits sum.splits dest: tr)
qed

lemma setupMulti_trace:
  assumes "ev \<in> set (snd (setupMulti env fl))"
  shows "ev = EvStat (multiPsiphonConfig fl) \<or> ev = EvMkdirAll (GetDataDir env)
         \<or> (\<exists>j. ev = EvLoadOrCreate (instanceOptions env fl (GetDataDir env)
                        (multiPsiphonConfig fl) (multiPsiphonConfig fl = []) j))
         \<or> (\<exists>n. ev = EvNewMultiService n)"
proof -
  have "ev = EvStat (multiPsiphonConfig fl)
        \<or> ev \<in> set (snd (createService env fl (multiPsiphonConfig fl) (multiPsiphonConfig fl = [])))"
    using assms by (auto simp: setupMulti_def split: if_splits prod.splits)
  then show ?thesis using createService_trace by blast
qed

subsection \<open>Termination signals\<close>

lemma sig_step_inv:
  assumes "(emitted s, ctxCancelled s, doneClosed s) =
             (case pc s of Waiting \<Rightarrow> ([], False, 0) | Received \<Rightarrow> ([], False, 0)
              | Printed \<Rightarrow> ([EvPrintln shutdown_notice], False, 0)
              | Finished \<Rightarrow> ([EvPrintln shutdown_notice, EvCancel], True, 1))"
      and "buffered s \<le> 1"
  shows "(emitted (sig_step s e), ctxCancelled (sig_step s e), doneClosed (sig_step s e)) =
             (case pc (sig_step s e) of Waiting \<Rightarrow> ([], False, 0) | Received \<Rightarrow> ([], False, 0)
              | Printed \<Rightarrow> ([EvPrintln shutdown_notice], False, 0)
              | Finished \<Rightarrow> ([EvPrintln shutdown_notice, EvCancel], True, 1))
         \<and> buffered (sig_step s e) \<le> 1"
  using assms by (cases e; cases "pc s") (auto simp: cancel_def)

lemma foldl_sig_step_inv:
  assumes "(emitted s, ctxCancelled s, doneClosed s) =
             (case pc s of Waiting \<Rightarrow> ([], False, 0) | Received \<Rightarrow> ([], False, 0)
              | Printed \<Rightarrow> ([EvPrintln shutdown_notice], False, 0)
              | Finished \<Rightarrow> ([EvPrintln shutdown_notice, EvCancel], True, 1))"
      and "buffered s \<le> 1"
  shows "(emitted (foldl sig_step s sched), ctxCancelled (foldl sig_step s sched),
          doneClosed (foldl sig_step s sched)) =
             (case pc (foldl sig_step s sched) of Waiting \<Rightarrow> ([], False, 0) | Received \<Rightarrow> ([], False, 0)
              | Printed \<Rightarrow> ([EvPrintln shutdown_notice], False, 0)
              | Finished \<Rightarrow> ([EvPrintln shutdown_notice, EvCancel], True, 1))
         \<and> buffered (foldl sig_step s sched) \<le> 1"
  using assms
proof (induction sched arbitrary: s)
  case Nil
  then show ?case by simp
next
  case (Cons e sched)
  from sig_step_inv [OF Cons.prems] Cons.IH [of "sig_step s e"]
  show ?case by simp
qed

lemma run_signals_inv:
  "(emitted (run_signals sched), ctxCancelled (run_signals sched), doneClosed (run_signals sched)) =
     (case pc (run_signals sched) of Waiting \<Rightarrow> ([], False, 0) | Received \<Rightarrow> ([], False, 0)
      | Printed \<Rightarrow> ([EvPrintln shutdown_notice], False, 0)
      | Finished \<Rightarrow> ([EvPrintln shutdown_notice, EvCancel], True, 1))
   \<and> buffered (run_signals sched) \<le> 1"
  unfolding run_signals_def
  by (rule foldl_sig_step_inv) (simp_all add: sig_init_def)

lemma emitted_cases:
  "emitted (run_signals sched) = [] \<and> \<not> ctxCancelled (run_signals sched)
   \<or> emitted (run_signals sched) = [EvPrintln shutdown_notice] \<and> \<not> ctxCancelled (run_signals sched)
   \<or> emitted (run_signals sched) = [EvPrintln shutdown_notice, EvCancel] \<and> ctxCancelled (run_signals sched)"
  using run_signals_inv [of sched] by (cases "pc (run_signals sched)") auto

lemma setupMulti_no_println: "count_list (snd (setupMulti env fl)) (EvPrintln msg) = 0"
  using setupMulti_trace [of "EvPrintln msg" env fl] by (auto simp: count_list_0_iff)

lemma notice_neq_all_stopped: "shutdown_notice \<noteq> all_stopped"
  by (simp add: shutdown_notice_def all_stopped_def)

lemma runService_notice_count:
  "count_list (snd (runService env fl svc)) (EvPrintln shutdown_notice) \<le> 1"
  using emitted_cases [of "schedule env"] notice_neq_all_stopped
  by (auto simp: runService_def Let_def split: option.splits)

text \<open>
  Claim C2. Whatever signals arrive and however their delivery interleaves with
  the steps of the shutdown goroutine, the shutdown notice is printed at most
  once, in the goroutine's output and in the whole run of \<open>runMulti\<close>; the
  goroutine calls \<open>cancel\<close> at most once; the context's \<open>Done\<close> channel is
  closed at most once, the deferred \<open>cancel()\<close> included, so that no second
  close can panic; and a signal never finds more than the one buffered slot in
  use, a further one being dropped.
\<close>

theorem shutdown_notice_at_most_once:
  "count_list (snd (runMulti env fl)) (EvPrintln shutdown_notice) \<le> 1
   \<and> count_list (emitted (run_signals (schedule env))) (EvPrintln shutdown_notice) \<le> 1
   \<and> count_list (emitted (run_signals (schedule env))) EvCancel \<le> 1
   \<and> doneClosed (run_signals (schedule env)) \<le> 1
   \<and> doneClosed (cancel (run_signals (schedule env))) \<le> 1
   \<and> buffered (run_signals (schedule env)) \<le> 1"
proof -
  have a: "count_list (snd (runMulti env fl)) (EvPrintln shutdown_notice) \<le> 1"
  proof (cases "setupMulti env fl")
    case (Pair r tr)
    have tr: "count_list tr (EvPrintln shutdown_notice) = 0"
      using setupMulti_no_println [of env fl shutdown_notice] Pair by simp
    show ?thesis
    proof (cases r)
      case (Inl e)
      with Pair tr show ?thesis by (simp add: runMulti_def)
    next
      case (Inr svc)
      obtain r' tr' where rs: "runService env fl svc = (r', tr')"
        by (cases "runService env fl svc")
      have "count_list tr' (EvPrintln shutdown_notice) \<le> 1"
        using runService_notice_count [of env fl svc] rs by simp
      with Pair Inr rs tr show ?thesis by (simp add: runMulti_def)
    qed
  qed
  have b: "count_list (emitted (run_signals (schedule env))) (EvPrintln shutdown_notice) \<le> 1"
          "count_list (emitted (run_signals (schedule env))) EvCancel \<le> 1"
    using emitted_cases [of "schedule env"] by auto
  have c: "doneClosed (run_signals (schedule env)) \<le> 1"
          "doneClosed (cancel (run_signals (schedule env))) \<le> 1"
          "buffered (run_signals (schedule env)) \<le> 1"
    using run_signals_inv [of "schedule env"]
    by (cases "pc (run_signals (schedule env))"; auto simp: cancel_def)+
  from a b c show ?thesis by blast
qed

theorem shutdown_notice_at_most_once_witness:
  "count_list (snd (runMulti
        (example_env [SignalDelivered, SignalDelivered, HandlerStep, SignalDelivered,
                      SignalDelivered, HandlerStep, HandlerStep, HandlerStep])
        (example_flags 2 []))) (EvPrintln shutdown_notice) = 1
   \<and> count_list (emitted (run_signals (schedule
        (example_env [SignalDelivered, SignalDelivered, HandlerStep, SignalDelivered,
                      SignalDelivered, HandlerStep, HandlerStep, HandlerStep])))) EvCancel = 1
   \<and> doneClosed (cancel (run_signals (schedule
        (example_env [SignalDelivered, SignalDelivered, HandlerStep, SignalDelivered,
                      SignalDelivered, HandlerStep, HandlerStep, HandlerStep])))) = 1
   \<and> buffered (run_signals (schedule
        (example_env [SignalDelivered, SignalDelivered, HandlerStep, SignalDelivered,
                      SignalDelivered, HandlerStep, HandlerStep, HandlerStep]))) = 1"
proof -
  let ?E = "example_env [SignalDelivered, SignalDelivered, HandlerStep, SignalDelivered,
                      SignalDelivered, HandlerStep, HandlerStep, HandlerStep]"
  let ?F = "example_flags 2 []"
  have ge: "1 \<le> count_list (snd (runMulti ?E ?F)) (EvPrintln shutdown_notice)"
    "1 \<le> count_list (emitted (run_signals (schedule ?E))) EvCancel"
    "1 \<le> doneClosed (cancel (run_signals (schedule ?E)))"
    "1 \<le> buffered (run_signals (schedule ?E))"
    by code_simp+
  from shutdown_notice_at_most_once [of ?E ?F] ge show ?thesis by linarith
qed

subsection \<open>The source of the network configuration\<close>

lemma requestedOptions_mem: "(opts \<in> set (requestedOptions tr)) = (EvLoadOrCreate opts \<in> set tr)"
proof (induction tr)
  case Nil
  then show ?case by simp
next
  case (Cons ev tr)
  then show ?case by (cases ev) simp_all
qed

lemma runService_no_LoadOrCreate: "EvLoadOrCreate opts \<notin> set (snd (runService env fl svc))"
proof -
  have "EvLoadOrCreate opts \<notin> set (emitted (run_signals (schedule env)))"
    using emitted_cases [of "schedule env"] by auto
  then show ?thesis
    by (cases "Run env svc") (simp_all add: runService_def Let_def)
qed


lemma runMulti_trace:
  assumes "ev \<in> set (snd (runMulti env fl))"
  shows "ev \<in> set (snd (setupMulti env fl))
         \<or> (\<exists>svc. fst (setupMulti env fl) = Inr svc \<and> ev \<in> set (snd (runService env fl svc)))"
proof (cases "setupMulti env fl")
  case (Pair r tr)
  show ?thesis
  proof (cases r)
    case (Inl e)
    with Pair assms show ?thesis by (simp add: runMulti_def)
  next
    case (Inr svc)
    obtain r' tr' where rs: "runService env fl svc = (r', tr')"
      by (cases "runService env fl svc")
    with Pair Inr assms show ?thesis by (auto simp: runMulti_def)
  qed
qed

lemma runMulti_requested:
  assumes "opts \<in> set (requestedOptions (snd (runMulti env fl)))"
  shows "\<exists>j. opts = instanceOptions env fl (GetDataDir env)
                 (multiPsiphonConfig fl) (multiPsiphonConfig fl = []) j"
proof -
  from assms have "EvLoadOrCreate opts \<in> set (snd (runMulti env fl))"
    by (simp only: requestedOptions_mem)
  then have "EvLoadOrCreate opts \<in> set (snd (setupMulti env fl))"
    using runMulti_trace [of "EvLoadOrCreate opts" env fl] runService_no_LoadOrCreate [of opts env fl]
    by blast
  from setupMulti_trace [OF this] show ?thesis by simp
qed

text \<open>
  Claim C4. With a valid instance count, a path given by \<open>--psiphon-config\<close>
  to a file that does not exist makes \<open>runMulti\<close> return the error that names
  the path after the sole action of examining the file, and no path together
  with no embedded configuration makes it return the error that asks for one
  after no action at all. Whatever the instance count, in both situations an
  error is returned, nothing but the examination of the file can have happened,
  and no instance configuration was requested. With no path and an embedded
  configuration, every requested instance configuration selects the embedded
  configuration and carries the empty path.
\<close>

theorem runMulti_config_source:
  "(1 \<le> multiInstances fl \<and> multiInstances fl \<le> 32 \<and> multiPsiphonConfig fl \<noteq> []
      \<and> statNotExist env (multiPsiphonConfig fl) \<longrightarrow>
      runMulti env fl = (Some (PsiphonConfigNotFound (multiPsiphonConfig fl)),
                         [EvStat (multiPsiphonConfig fl)]))
   \<and> (1 \<le> multiInstances fl \<and> multiInstances fl \<le> 32 \<and> multiPsiphonConfig fl = []
      \<and> \<not> HasEmbeddedConfig env \<longrightarrow>
      runMulti env fl = (Some PsiphonConfigRequired, []))
   \<and> ((multiPsiphonConfig fl \<noteq> [] \<and> statNotExist env (multiPsiphonConfig fl))
       \<or> (multiPsiphonConfig fl = [] \<and> \<not> HasEmbeddedConfig env) \<longrightarrow>
      fst (runMulti env fl) \<noteq> None
      \<and> set (snd (runMulti env fl)) \<subseteq> {EvStat (multiPsiphonConfig fl)}
      \<and> requestedOptions (snd (runMulti env fl)) = [])
   \<and> (multiPsiphonConfig fl = [] \<and> HasEmbeddedConfig env \<longrightarrow>
      (\<forall>opts \<in> set (requestedOptions (snd (runMulti env fl))).
          UseEmbeddedConfig opts \<and> PsiphonConfigPath opts = []))"
proof (intro conjI impI)
  assume "1 \<le> multiInstances fl \<and> multiInstances fl \<le> 32 \<and> multiPsiphonConfig fl \<noteq> []
      \<and> statNotExist env (multiPsiphonConfig fl)"
  then show "runMulti env fl = (Some (PsiphonConfigNotFound (multiPsiphonConfig fl)),
                         [EvStat (multiPsiphonConfig fl)])"
    by (simp add: runMulti_def setupMulti_def)
next
  assume "1 \<le> multiInstances fl \<and> multiInstances fl \<le> 32 \<and> multiPsiphonConfig fl = []
      \<and> \<not> HasEmbeddedConfig env"
  then show "runMulti env fl = (Some PsiphonConfigRequired, [])"
    by (simp add: runMulti_def setupMulti_def)
next
  assume h: "(multiPsiphonConfig fl \<noteq> [] \<and> statNotExist env (multiPsiphonConfig fl))
       \<or> (multiPsiphonConfig fl = [] \<and> \<not> HasEmbeddedConfig env)"
  then have "runMulti env fl = (Some InstancesOutOfRange, [])
             \<or> runMulti env fl = (Some (PsiphonConfigNotFound (multiPsiphonConfig fl)),
                         [EvStat (multiPsiphonConfig fl)])
             \<or> runMulti env fl = (Some PsiphonConfigRequired, [])"
    by (cases "multiInstances fl < 1 \<or> multiInstances fl > 32")
       (auto simp: runMulti_def setupMulti_def)
  then have "fst (runMulti env fl) \<noteq> None
      \<and> set (snd (runMulti env fl)) \<subseteq> {EvStat (multiPsiphonConfig fl)}
      \<and> requestedOptions (snd (runMulti env fl)) = []"
    by auto
  then show "fst (runMulti env fl) \<noteq> None"
    and "set (snd (runMulti env fl)) \<subseteq> {EvStat (multiPsiphonConfig fl)}"
    and "requestedOptions (snd (runMulti env fl)) = []" by blast+
next
  assume h: "multiPsiphonConfig fl = [] \<and> HasEmbeddedConfig env"
  show "\<forall>opts \<in> set (requestedOptions (snd (runMulti env fl))).
          UseEmbeddedConfig opts \<and> PsiphonConfigPath opts = []"
  proof
    fix opts assume "opts \<in> set (requestedOptions (snd (runMulti env fl)))"
    from runMulti_requested [OF this] h
    show "UseEmbeddedConfig opts \<and> PsiphonConfigPath opts = []"
      by (auto simp: instanceOptions_def)
  qed
qed



theorem runMulti_config_source_witness:
  "(1 \<le> multiInstances missing_path_flags \<and> multiInstances missing_path_flags \<le> 32
      \<and> multiPsiphonConfig missing_path_flags \<noteq> []
      \<and> statNotExist (example_env []) (multiPsiphonConfig missing_path_flags))
   \<and> runMulti (example_env []) missing_path_flags =
       (Some (PsiphonConfigNotFound ''missing.json''), [EvStat ''missing.json''])
   \<and> (1 \<le> multiInstances no_path_flags \<and> multiInstances no_path_flags \<le> 32
      \<and> multiPsiphonConfig no_path_flags = [] \<and> \<not> HasEmbeddedConfig (example_env []))
   \<and> runMulti (example_env []) no_path_flags = (Some PsiphonConfigRequired, [])
   \<and> requestedOptions (snd (runMulti (example_env []) no_path_flags)) = []
   \<and> (multiPsiphonConfig no_path_flags = [] \<and> HasEmbeddedConfig embedded_env)
   \<and> length (requestedOptions (snd (runMulti embedded_env no_path_flags))) = 2
   \<and> list_all (\<lambda>opts. UseEmbeddedConfig opts \<and> PsiphonConfigPath opts = [])
        (requestedOptions (snd (runMulti embedded_env no_path_flags)))"
proof -
  have h1: "1 \<le> multiInstances missing_path_flags \<and> multiInstances missing_path_flags \<le> 32
      \<and> multiPsiphonConfig missing_path_flags \<noteq> []
      \<and> statNotExist (example_env []) (multiPsiphonConfig missing_path_flags)"
    by (simp add: missing_path_flags_def example_flags_def example_env_def)
  have h2: "1 \<le> multiInstances no_path_flags \<and> multiInstances no_path_flags \<le> 32
      \<and> multiPsiphonConfig no_path_flags = [] \<and> \<not> HasEmbeddedConfig (example_env [])"
    by (simp add: no_path_flags_def example_flags_def example_env_def)
  have h3: "multiPsiphonConfig no_path_flags = [] \<and> HasEmbeddedConfig embedded_env"
    by (simp add: no_path_flags_def example_flags_def example_env_def embedded_env_def)
  have p: "multiPsiphonConfig missing_path_flags = ''missing.json''"
    by (simp add: missing_path_flags_def)
  have n: "length (requestedOptions (snd (runMulti embedded_env no_path_flags))) = 2"
    by code_simp
  from runMulti_config_source [of missing_path_flags "example_env []"] h1 p
  have a: "runMulti (example_env []) missing_path_flags =
       (Some (PsiphonConfigNotFound ''missing.json''), [EvStat ''missing.json''])" by simp
  from runMulti_config_source [of no_path_flags "example_env []"] h2
  have b: "runMulti (example_env []) no_path_flags = (Some PsiphonConfigRequired, [])"
    and c: "requestedOptions (snd (runMulti (example_env []) no_path_flags)) = []" by blast+
  from runMulti_config_source [of no_path_flags embedded_env] h3
  have d: "list_all (\<lambda>opts. UseEmbeddedConfig opts \<and> PsiphonConfigPath opts = [])
        (requestedOptions (snd (runMulti embedded_env no_path_flags)))"
    unfolding list_all_iff by blast
  from h1 h2 h3 n a b c d show ?thesis by blast
qed

subsection \<open>Decimal numbers and paths\<close>

lemma digit_char_inj: "d < 10 \<Longrightarrow> e < 10 \<Longrightarrow> digit_char d = digit_char e \<Longrightarrow> d = e"
proof -
  assume d: "d < 10" and e: "e < 10" and eq: "digit_char d = digit_char e"
  have dist: "distinct ''0123456789''" by simp
  have "''0123456789'' ! d = ''0123456789'' ! e" using eq d e by (simp add: digit_char_def)
  moreover have "d < length ''0123456789''" "e < length ''0123456789''" using d e by simp_all
  ultimately show "d = e" using dist nth_eq_iff_index_eq by blast
qed

lemma digit_char_in: "digit_char d \<in> set ''0123456789''"
proof -
  have "d mod 10 < length ''0123456789''" by simp
  then have "''0123456789'' ! (d mod 10) \<in> set ''0123456789''" by (rule nth_mem)
  then show ?thesis by (simp only: digit_char_def)
qed

lemma digits_set: "set (digits n) \<subseteq> set ''0123456789''"
proof (induction n rule: digits.induct)
  case (1 n)
  show ?case
  proof (cases "n < 10")
    case True
    then have "digits n = [digit_char n]" by (simp add: digits.simps)
    then show ?thesis using digit_char_in [of n] by simp
  next
    case False
    then have "digits n = digits (n div 10) @ [digit_char (n mod 10)]"
      by (subst digits.simps) simp
    then show ?thesis using "1.IH" [OF False] digit_char_in [of "n mod 10"] by auto
  qed
qed

lemma digits_nonempty: "digits n \<noteq> []"
  by (subst digits.simps) simp

lemma digits_inj: "digits n = digits m \<Longrightarrow> n = m"
proof (induction n arbitrary: m rule: digits.induct)
  case (1 n)
  show ?case
  proof (cases "n < 10")
    case n: True
    then have dn: "digits n = [digit_char n]" by (simp add: digits.simps)
    show ?thesis
    proof (cases "m < 10")
      case True
      then have "digits m = [digit_char m]" by (simp add: digits.simps)
      with dn "1.prems" n True show ?thesis using digit_char_inj by simp
    next
      case False
      then have "digits m = digits (m div 10) @ [digit_char (m mod 10)]"
        by (subst digits.simps) simp
      with dn "1.prems" have "digits (m div 10) = []" by simp
      then show ?thesis using digits_nonempty by blast
    qed
  next
    case n: False
    then have dn: "digits n = digits (n div 10) @ [digit_char (n mod 10)]"
      by (subst digits.simps) simp
    show ?thesis
    proof (cases "m < 10")
      case True
      then have "digits m = [digit_char m]" by (simp add: digits.simps)
      with dn "1.prems" have "digits (n div 10) = []" by simp
      then show ?thesis using digits_nonempty by blast
    next
      case False
      then have "digits m = digits (m div 10) @ [digit_char (m mod 10)]"
        by (subst digits.simps) simp
      with dn "1.prems" have a: "digits (n div 10) = digits (m div 10)"
        and b: "digit_char (n mod 10) = digit_char (m mod 10)" by simp_all
      from "1.IH" [OF n a] have "n div 10 = m div 10" .
      moreover from b have "n mod 10 = m mod 10" using digit_char_inj [of "n mod 10" "m mod 10"] by simp
      ultimately show ?thesis by (metis div_mult_mod_eq)
    qed
  qed
qed

lemma fmt_d_inj: "fmt_d i = fmt_d j \<Longrightarrow> i = j"
proof -
  assume eq: "fmt_d i = fmt_d j"
  have nd: "\<And>n. hd (digits n) \<noteq> CHR ''-''"
  proof -
    fix n
    have "hd (digits n) \<in> set (digits n)" using digits_nonempty by simp
    then have "hd (digits n) \<in> set ''0123456789''" using digits_set by blast
    then show "hd (digits n) \<noteq> CHR ''-''" by auto
  qed
  consider "i < 0" "j < 0" | "i < 0" "0 \<le> j" | "0 \<le> i" "j < 0" | "0 \<le> i" "0 \<le> j" by linarith
  then show ?thesis
  proof cases
    case 1
    with eq have "digits (nat (- i)) = digits (nat (- j))" by (simp add: fmt_d_def)
    then have "nat (- i) = nat (- j)" by (rule digits_inj)
    with 1 show ?thesis by simp
  next
    case 2
    with eq have "CHR ''-'' # digits (nat (- i)) = digits (nat j)" by (simp add: fmt_d_def)
    then have "hd (digits (nat j)) = CHR ''-''" by (metis list.sel(1))
    then show ?thesis using nd by blast
  next
    case 3
    with eq have "CHR ''-'' # digits (nat (- j)) = digits (nat i)" by (simp add: fmt_d_def)
    then have "hd (digits (nat i)) = CHR ''-''" by (metis list.sel(1))
    then show ?thesis using nd by blast
  next
    case 4
    with eq have "digits (nat i) = digits (nat j)" by (simp add: fmt_d_def)
    then have "nat i = nat j" by (rule digits_inj)
    with 4 show ?thesis by simp
  qed
qed

lemma fmt_d_no_sep: "CHR ''/'' \<notin> set (fmt_d i)"
proof -
  have "CHR ''/'' \<notin> set (digits n)" for n using digits_set [of n] by auto
  then show ?thesis by (simp add: fmt_d_def)
qed

lemma ext_scan_no_sep: "CHR ''/'' \<notin> set suffix \<Longrightarrow> CHR ''/'' \<notin> set (ext_scan r suffix)"
  by (induction r arbitrary: suffix) auto

lemma Ext_no_sep: "CHR ''/'' \<notin> set (Ext path)"
  by (simp add: Ext_def ext_scan_no_sep)

lemma ext_scan_eq:
  "ext_scan r suffix =
     (if CHR ''.'' \<in> set (takeWhile (\<lambda>c. c \<noteq> CHR ''/'') r)
      then CHR ''.'' # rev (takeWhile (\<lambda>c. c \<noteq> CHR ''.'') r) @ suffix else [])"
  by (induction r arbitrary: suffix) auto

lemma Ext_eq:
  "Ext path =
     (if CHR ''.'' \<in> set (final_element path)
      then CHR ''.'' # rev (takeWhile (\<lambda>c. c \<noteq> CHR ''.'') (rev path)) else [])"
  by (simp add: Ext_def ext_scan_eq final_element_def)

lemma final_element_subset: "set (final_element s) \<subseteq> set s"
proof -
  have "set (takeWhile (\<lambda>c. c \<noteq> CHR ''/'') (rev s)) \<subseteq> set (rev s)" by (auto dest: set_takeWhileD)
  then show ?thesis by (simp add: final_element_def)
qed

lemma Ext_split:
  "split_at_final_element_dot pattern =
     (take (length pattern - length (Ext pattern)) pattern, Ext pattern)"
proof (cases "CHR ''.'' \<in> set (final_element pattern)")
  case False
  then show ?thesis by (simp add: split_at_final_element_dot_def Ext_eq)
next
  case True
  then have "CHR ''.'' \<in> set pattern" using final_element_subset by blast
  with True show ?thesis
    by (simp add: split_at_final_element_dot_def split_at_last_dot_def Ext_eq Let_def)
qed

lemma final_element_no_sep: "CHR ''/'' \<notin> set s \<Longrightarrow> final_element s = s"
proof -
  assume "CHR ''/'' \<notin> set s"
  then have tw: "takeWhile (\<lambda>c. c \<noteq> CHR ''/'') (rev s) = rev s"
    by (auto simp: takeWhile_eq_all_conv)
  show ?thesis unfolding final_element_def tw by simp
qed

lemma split_no_sep:
  "CHR ''/'' \<notin> set pattern \<Longrightarrow> split_at_final_element_dot pattern = split_at_last_dot pattern"
  by (simp add: split_at_final_element_dot_def split_at_last_dot_def final_element_no_sep)

lemma splitSep_nonempty: "splitSep s \<noteq> []"
  by (induction s) (auto split: list.splits)

lemma splitSep_no_sep: "CHR ''/'' \<notin> set y \<Longrightarrow> splitSep y = [y]"
  by (induction y) auto

lemma splitSep_append:
  "CHR ''/'' \<notin> set y \<Longrightarrow> splitSep (q @ y) = butlast (splitSep q) @ [last (splitSep q) @ y]"
proof (induction q)
  case Nil
  then show ?case by (simp add: splitSep_no_sep)
next
  case (Cons c q)
  show ?case
  proof (cases "c = CHR ''/''")
    case True
    then show ?thesis using Cons splitSep_nonempty [of q] by simp
  next
    case False
    obtain e es where q: "splitSep q = e # es"
      using splitSep_nonempty [of q] by (cases "splitSep q") auto
    show ?thesis
    proof (cases es)
      case Nil
      with q False Cons show ?thesis by simp
    next
      case (Cons e' es')
      with q False Cons.IH [OF Cons.prems] show ?thesis by simp
    qed
  qed
qed

lemma joinSep_snoc: "joinSep (xs @ [e]) = concat (map (\<lambda>s. s @ ''/'') xs) @ e"
proof (induction xs)
  case Nil
  then show ?case by simp
next
  case (Cons x xs)
  then show ?case by (cases xs) simp_all
qed

lemma clean_step_push:
  "2 < length e \<Longrightarrow> clean_step rooted stack e = e # stack"
  by (auto simp: clean_step_def)

lemma Clean_append:
  assumes "CHR ''/'' \<notin> set y" and "2 < length y"
  shows "Clean (q @ y) =
           (if is_rooted (q @ y) then ''/'' else [])
           @ concat (map (\<lambda>s. s @ ''/'')
               (rev (foldl (clean_step (is_rooted (q @ y))) [] (butlast (splitSep q)))))
           @ last (splitSep q) @ y"
proof -
  let ?r = "is_rooted (q @ y)"
  let ?S = "foldl (clean_step ?r) [] (butlast (splitSep q))"
  let ?e = "last (splitSep q) @ y"
  have "2 < length ?e" using assms(2) by simp
  then have "foldl (clean_step ?r) [] (splitSep (q @ y)) = ?e # ?S"
    by (simp add: splitSep_append [OF assms(1)] clean_step_push)
  then have "Clean (q @ y) = render ?r (?e # ?S)" by (simp add: Clean_def)
  then show ?thesis by (simp add: render_def joinSep_snoc)
qed

lemma is_rooted_append: "t \<noteq> [] \<Longrightarrow> is_rooted (q @ t @ x) = is_rooted (q @ t)"
  by (cases q; cases t) (simp_all add: is_rooted_def)

text \<open>A path whose last element ends in \<open>t @ x\<close> keeps it: the rest is a prefix that does not depend on \<open>x\<close>.\<close>

lemma Clean_suffix:
  assumes "CHR ''/'' \<notin> set t" and "2 < length t"
  shows "\<exists>P. \<forall>x. CHR ''/'' \<notin> set x \<longrightarrow> Clean (q @ t @ x) = P @ t @ x"
proof -
  let ?P = "(if is_rooted (q @ t) then ''/'' else [])
           @ concat (map (\<lambda>s. s @ ''/'')
               (rev (foldl (clean_step (is_rooted (q @ t))) [] (butlast (splitSep q)))))
           @ last (splitSep q)"
  have "\<forall>x. CHR ''/'' \<notin> set x \<longrightarrow> Clean (q @ t @ x) = ?P @ t @ x"
  proof (intro allI impI)
    fix x :: string
    assume x: "CHR ''/'' \<notin> set x"
    have t: "t \<noteq> []" using assms(2) by auto
    have "CHR ''/'' \<notin> set (t @ x)" "2 < length (t @ x)" using assms x by simp_all
    from Clean_append [OF this, of q] show "Clean (q @ t @ x) = ?P @ t @ x"
      by (simp add: is_rooted_append [OF t])
  qed
  then show ?thesis by blast
qed

lemma Join_two:
  "y \<noteq> [] \<Longrightarrow> Join [b, y] = Clean ((if b = [] then [] else b @ ''/'') @ y)"
  by (simp add: Join_def)

lemma Join_suffix:
  assumes "CHR ''/'' \<notin> set t" and "2 < length t"
  shows "\<exists>P. \<forall>x. CHR ''/'' \<notin> set x \<longrightarrow> Join [b, s @ t @ x] = P @ t @ x"
proof -
  let ?q = "(if b = [] then [] else b @ ''/'') @ s"
  from Clean_suffix [OF assms, of ?q]
  obtain P where P: "\<forall>x. CHR ''/'' \<notin> set x \<longrightarrow> Clean (?q @ t @ x) = P @ t @ x" by blast
  have t: "t \<noteq> []" using assms(2) by auto
  have "\<forall>x. CHR ''/'' \<notin> set x \<longrightarrow> Join [b, s @ t @ x] = P @ t @ x"
  proof (intro allI impI)
    fix x :: string
    assume "CHR ''/'' \<notin> set x"
    with P have "Clean (?q @ t @ x) = P @ t @ x" by blast
    moreover have "Join [b, s @ t @ x] = Clean (?q @ t @ x)"
      using t Join_two [of "s @ t @ x" b] by simp
    ultimately show "Join [b, s @ t @ x] = P @ t @ x" by simp
  qed
  then show ?thesis by blast
qed

subsection \<open>Distinct paths\<close>

lemma DataDir_inj:
  assumes "DataDir (instanceOptions env fl b p u i) = DataDir (instanceOptions env fl b p u j)"
  shows "i = j"
proof -
  have t: "CHR ''/'' \<notin> set ''instance-''" "2 < length ''instance-''" by simp_all
  from Join_suffix [OF t, of b "[]"]
  obtain P where P: "\<forall>x. CHR ''/'' \<notin> set x \<longrightarrow> Join [b, [] @ ''instance-'' @ x] = P @ ''instance-'' @ x"
    by blast
  have "Join [b, [] @ ''instance-'' @ fmt_d k] = P @ ''instance-'' @ fmt_d k" for k
    using P fmt_d_no_sep by blast
  then have "P @ ''instance-'' @ fmt_d i = P @ ''instance-'' @ fmt_d j"
    using assms by (simp add: instanceOptions_def)
  then have "fmt_d i = fmt_d j" by simp
  then show ?thesis by (rule fmt_d_inj)
qed

lemma statsFileFor_shape:
  assumes "pattern \<noteq> []"
  shows "\<exists>P. \<forall>i. statsFileFor b pattern i = P @ ''-instance-'' @ fmt_d i @ Ext pattern"
proof -
  let ?base = "take (length pattern - length (Ext pattern)) pattern"
  have t: "CHR ''/'' \<notin> set ''-instance-''" "2 < length ''-instance-''" by simp_all
  from Join_suffix [OF t, of b ?base]
  obtain P where P: "\<forall>x. CHR ''/'' \<notin> set x \<longrightarrow>
      Join [b, ?base @ ''-instance-'' @ x] = P @ ''-instance-'' @ x"
    by blast
  have "\<forall>i. statsFileFor b pattern i = P @ ''-instance-'' @ fmt_d i @ Ext pattern"
  proof
    fix i
    have "CHR ''/'' \<notin> set (fmt_d i @ Ext pattern)" using fmt_d_no_sep Ext_no_sep by simp
    with P have "Join [b, ?base @ ''-instance-'' @ fmt_d i @ Ext pattern]
                   = P @ ''-instance-'' @ fmt_d i @ Ext pattern" by blast
    then show "statsFileFor b pattern i = P @ ''-instance-'' @ fmt_d i @ Ext pattern"
      using assms by (simp add: statsFileFor_def Let_def)
  qed
  then show ?thesis by blast
qed

lemma statsFileFor_inj:
  assumes "pattern \<noteq> []" and "statsFileFor b pattern i = statsFileFor b pattern j"
  shows "i = j"
proof -
  from statsFileFor_shape [OF assms(1), of b]
  obtain P where "\<forall>i. statsFileFor b pattern i = P @ ''-instance-'' @ fmt_d i @ Ext pattern"
    by blast
  with assms(2) have "fmt_d i = fmt_d j" by simp
  then show ?thesis by (rule fmt_d_inj)
qed

lemma statsFileFor_empty_iff: "(statsFileFor b pattern i = []) = (pattern = [])"
proof (cases "pattern = []")
  case True
  then show ?thesis by (simp add: statsFileFor_def)
next
  case False
  from statsFileFor_shape [OF False, of b]
  obtain P where "\<forall>i. statsFileFor b pattern i = P @ ''-instance-'' @ fmt_d i @ Ext pattern"
    by blast
  then have "statsFileFor b pattern i \<noteq> []" by simp
  with False show ?thesis by simp
qed

lemma requestedOptions_map: "requestedOptions (map (\<lambda>j. EvLoadOrCreate (f j)) xs) = map f xs"
  by (induction xs) simp_all

lemma requestedOptions_append:
  "requestedOptions (xs @ ys) = requestedOptions xs @ requestedOptions ys"
proof (induction xs)
  case Nil
  then show ?case by simp
next
  case (Cons ev xs)
  then show ?case by (cases ev) simp_all
qed

lemma buildConfigs_requested:
  "\<exists>k. requestedOptions (snd (buildConfigs env fl b p u i acc))
         = map (instanceOptions env fl b p u) [i..k]
       \<and> (\<forall>cfgs. fst (buildConfigs env fl b p u i acc) = Inr cfgs \<longrightarrow> k = multiInstances fl - 1)"
  using buildConfigs_cases [of env fl b p u i acc]
  by (auto simp: requestedOptions_map)

lemma distinct_requested:
  assumes inj: "\<And>i j. f (instanceOptions env fl b p u i) = f (instanceOptions env fl b p u j) \<Longrightarrow> i = j"
  shows "distinct (map f (requestedOptions (snd (buildConfigs env fl b p u i acc))))"
proof -
  from buildConfigs_requested [of env fl b p u i acc]
  obtain k where "requestedOptions (snd (buildConfigs env fl b p u i acc))
         = map (instanceOptions env fl b p u) [i..k]" by blast
  moreover have "distinct (map (\<lambda>j. f (instanceOptions env fl b p u j)) [i..k])"
    by (rule distinct_map [THEN iffD2]) (auto intro!: inj_onI dest: inj)
  ultimately show ?thesis by (simp add: comp_def)
qed

lemma runService_requested: "requestedOptions (snd (runService env fl svc)) = []"
proof -
  have "requestedOptions (emitted (run_signals (schedule env))) = []"
    using emitted_cases [of "schedule env"] by auto
  then show ?thesis
    by (cases "Run env svc") (simp_all add: runService_def Let_def requestedOptions_append)
qed

lemma createService_requested:
  "requestedOptions (snd (createService env fl p u)) =
     (if MkdirAll env (GetDataDir env) = None
      then requestedOptions (snd (buildConfigs env fl (GetDataDir env) p u 0 [])) else [])"
proof (cases "MkdirAll env (GetDataDir env)")
  case (Some err)
  then show ?thesis by (simp add: createService_def)
next
  case None
  obtain r tr where bc: "buildConfigs env fl (GetDataDir env) p u 0 [] = (r, tr)"
    by (cases "buildConfigs env fl (GetDataDir env) p u 0 []")
  show ?thesis
  proof (cases r)
    case (Inl e)
    with None bc show ?thesis by (simp add: createService_def)
  next
    case (Inr cfgs)
    with None bc show ?thesis
      by (cases "NewMultiService env cfgs") (simp_all add: createService_def requestedOptions_append)
  qed
qed

lemma setupMulti_requested:
  "requestedOptions (snd (setupMulti env fl)) = []
   \<or> requestedOptions (snd (setupMulti env fl)) =
       requestedOptions (snd (buildConfigs env fl (GetDataDir env) (multiPsiphonConfig fl)
                                 (multiPsiphonConfig fl = []) 0 []))"
proof -
  have cs: "\<And>u. requestedOptions (snd (createService env fl (multiPsiphonConfig fl) u)) = []
      \<or> requestedOptions (snd (createService env fl (multiPsiphonConfig fl) u)) =
       requestedOptions (snd (buildConfigs env fl (GetDataDir env) (multiPsiphonConfig fl) u 0 []))"
    by (simp add: createService_requested)
  show ?thesis
  proof (cases "multiInstances fl < 1 \<or> multiInstances fl > 32")
    case True
    then show ?thesis by (simp add: setupMulti_def)
  next
    case range: False
    show ?thesis
    proof (cases "multiPsiphonConfig fl = []")
      case True
      with range cs [of True] show ?thesis by (auto simp: setupMulti_def)
    next
      case False
      obtain r tr where c: "createService env fl (multiPsiphonConfig fl) False = (r, tr)"
        by (cases "createService env fl (multiPsiphonConfig fl) False")
      with range False cs [of False] show ?thesis by (auto simp: setupMulti_def)
    qed
  qed
qed

lemma runMulti_requested_eq:
  "requestedOptions (snd (runMulti env fl)) = requestedOptions (snd (setupMulti env fl))"
proof (cases "setupMulti env fl")
  case (Pair r tr)
  show ?thesis
  proof (cases r)
    case (Inl e)
    with Pair show ?thesis by (simp add: runMulti_def)
  next
    case (Inr svc)
    obtain r' tr' where rs: "runService env fl svc = (r', tr')"
      by (cases "runService env fl svc")
    then have "requestedOptions tr' = []" using runService_requested [of env fl svc] by simp
    with Pair Inr rs show ?thesis by (simp add: runMulti_def requestedOptions_append)
  qed
qed

lemma createService_Inr:
  assumes "fst (createService env fl p u) = Inr svc"
  shows "MkdirAll env (GetDataDir env) = None
         \<and> (\<exists>cfgs. fst (buildConfigs env fl (GetDataDir env) p u 0 []) = Inr cfgs)"
proof (cases "MkdirAll env (GetDataDir env)")
  case (Some err)
  with assms show ?thesis by (simp add: createService_def)
next
  case None
  obtain r tr where bc: "buildConfigs env fl (GetDataDir env) p u 0 [] = (r, tr)"
    by (cases "buildConfigs env fl (GetDataDir env) p u 0 []")
  show ?thesis
  proof (cases r)
    case (Inl e)
    with None bc assms show ?thesis by (simp add: createService_def)
  next
    case (Inr cfgs)
    with None bc show ?thesis by simp
  qed
qed

lemma setupMulti_Inr:
  assumes "setupMulti env fl = (Inr svc, tr)"
  shows "1 \<le> multiInstances fl \<and> multiInstances fl \<le> 32
         \<and> fst (createService env fl (multiPsiphonConfig fl) (multiPsiphonConfig fl = [])) = Inr svc"
proof -
  have range: "\<not> (multiInstances fl < 1 \<or> multiInstances fl > 32)"
    using assms by (auto simp: setupMulti_def)
  show ?thesis
  proof (cases "multiPsiphonConfig fl = []")
    case True
    with range assms show ?thesis by (auto simp: setupMulti_def split: if_splits)
  next
    case False
    obtain r tr' where c: "createService env fl (multiPsiphonConfig fl) False = (r, tr')"
      by (cases "createService env fl (multiPsiphonConfig fl) False")
    with range False assms show ?thesis by (auto simp: setupMulti_def split: if_splits)
  qed
qed

lemma setupMulti_Inr_requested:
  assumes "setupMulti env fl = (Inr svc, tr)"
  shows "requestedOptions (snd (setupMulti env fl)) =
           map (instanceOptions env fl (GetDataDir env) (multiPsiphonConfig fl) (multiPsiphonConfig fl = []))
               [0..multiInstances fl - 1]"
proof -
  let ?p = "multiPsiphonConfig fl"
  from setupMulti_Inr [OF assms]
  have range: "\<not> (multiInstances fl < 1 \<or> multiInstances fl > 32)"
    and cs: "fst (createService env fl ?p (?p = [])) = Inr svc" by auto
  from createService_Inr [OF cs] obtain cfgs
    where mk: "MkdirAll env (GetDataDir env) = None"
      and bc: "fst (buildConfigs env fl (GetDataDir env) ?p (?p = []) 0 []) = Inr cfgs" by blast
  from buildConfigs_requested [of env fl "GetDataDir env" ?p "?p = []" 0 "[]"] bc
  have b: "requestedOptions (snd (buildConfigs env fl (GetDataDir env) ?p (?p = []) 0 []))
         = map (instanceOptions env fl (GetDataDir env) ?p (?p = [])) [0..multiInstances fl - 1]"
    by auto
  have "requestedOptions (snd (setupMulti env fl))
          = requestedOptions (snd (createService env fl ?p (?p = [])))"
  proof (cases "?p = []")
    case True
    with range assms show ?thesis by (auto simp: setupMulti_def split: if_splits)
  next
    case False
    obtain r tr' where c: "createService env fl ?p False = (r, tr')"
      by (cases "createService env fl ?p False")
    with range False assms show ?thesis by (auto simp: setupMulti_def split: if_splits)
  qed
  with mk b show ?thesis by (simp add: createService_requested)
qed

text \<open>
  Claim C6. For an instance count between 1 and 32 and any base directory, the
  instance configurations that \<open>runMulti\<close> requests have pairwise distinct data
  directories and, when the stats pattern is not empty, pairwise distinct stats
  file paths; when the service could be created, exactly as many configurations
  were requested as there are instances.
\<close>

theorem instance_paths_distinct:
  assumes "1 \<le> multiInstances fl" and "multiInstances fl \<le> 32"
  shows "distinct (map DataDir (requestedOptions (snd (runMulti env fl))))
       \<and> (multiStatsFilePattern fl \<noteq> [] \<longrightarrow>
            distinct (map StatsFile (requestedOptions (snd (runMulti env fl)))))
       \<and> (\<forall>svc tr. setupMulti env fl = (Inr svc, tr) \<longrightarrow>
            length (requestedOptions (snd (runMulti env fl))) = nat (multiInstances fl))"
proof (intro conjI impI allI)
  let ?b = "GetDataDir env" and ?p = "multiPsiphonConfig fl"
  let ?loop = "snd (buildConfigs env fl ?b ?p (?p = []) 0 [])"
  have cases: "requestedOptions (snd (runMulti env fl)) = []
      \<or> requestedOptions (snd (runMulti env fl)) = requestedOptions ?loop"
    using setupMulti_requested [of env fl] by (simp add: runMulti_requested_eq)
  have "distinct (map DataDir (requestedOptions ?loop))"
    by (rule distinct_requested) (rule DataDir_inj)
  with cases show "distinct (map DataDir (requestedOptions (snd (runMulti env fl))))" by auto
  {
    assume pat: "multiStatsFilePattern fl \<noteq> []"
    have "distinct (map StatsFile (requestedOptions ?loop))"
    proof (rule distinct_requested)
      fix i j
      assume "StatsFile (instanceOptions env fl ?b ?p (?p = []) i)
              = StatsFile (instanceOptions env fl ?b ?p (?p = []) j)"
      then have "statsFileFor ?b (multiStatsFilePattern fl) i = statsFileFor ?b (multiStatsFilePattern fl) j"
        by (simp add: instanceOptions_def)
      with pat show "i = j" by (rule statsFileFor_inj)
    qed
    with cases show "distinct (map StatsFile (requestedOptions (snd (runMulti env fl))))" by auto
  }
  {
    fix svc tr
    assume s: "setupMulti env fl = (Inr svc, tr)"
    from setupMulti_Inr_requested [OF s] assms(1)
    show "length (requestedOptions (snd (runMulti env fl))) = nat (multiInstances fl)"
      by (simp add: runMulti_requested_eq)
  }
qed

theorem instance_paths_distinct_witness:
  "1 \<le> multiInstances (example_flags 4 ''stats.json'')
   \<and> multiInstances (example_flags 4 ''stats.json'') \<le> 32
   \<and> multiStatsFilePattern (example_flags 4 ''stats.json'') \<noteq> []
   \<and> fst (setupMulti (example_env []) (example_flags 4 ''stats.json''))
       = Inr (requestedOptions (snd (runMulti (example_env []) (example_flags 4 ''stats.json''))))
   \<and> map DataDir (requestedOptions (snd (runMulti (example_env []) (example_flags 4 ''stats.json''))))
       = [''/tmp/x/instance-0'', ''/tmp/x/instance-1'', ''/tmp/x/instance-2'', ''/tmp/x/instance-3'']
   \<and> distinct (map DataDir (requestedOptions (snd (runMulti (example_env []) (example_flags 4 ''stats.json'')))))
   \<and> distinct (map StatsFile (requestedOptions (snd (runMulti (example_env []) (example_flags 4 ''stats.json'')))))
   \<and> length (requestedOptions (snd (runMulti (example_env []) (example_flags 4 ''stats.json'')))) = nat 4"
proof -
  let ?E = "example_env []" and ?F = "example_flags 4 ''stats.json''"
  have h1: "1 \<le> multiInstances ?F" and h2: "multiInstances ?F \<le> 32"
    and h3: "multiStatsFilePattern ?F \<noteq> []" and n: "multiInstances ?F = 4"
    by (simp_all add: example_flags_def)
  have s: "fst (setupMulti ?E ?F) = Inr (requestedOptions (snd (runMulti ?E ?F)))"
    by code_simp
  have d: "map DataDir (requestedOptions (snd (runMulti ?E ?F)))
       = [''/tmp/x/instance-0'', ''/tmp/x/instance-1'', ''/tmp/x/instance-2'', ''/tmp/x/instance-3'']"
    by code_simp
  have s': "setupMulti ?E ?F = (Inr (requestedOptions (snd (runMulti ?E ?F))), snd (setupMulti ?E ?F))"
    using s by (metis prod.collapse)
  from instance_paths_distinct [OF h1 h2, of ?E] h3 s' n
  have "distinct (map DataDir (requestedOptions (snd (runMulti ?E ?F))))"
    and "distinct (map StatsFile (requestedOptions (snd (runMulti ?E ?F))))"
    and "length (requestedOptions (snd (runMulti ?E ?F))) = nat 4"
    by (blast, blast, metis)
  with h1 h2 h3 s d show ?thesis by blast
qed

subsection \<open>The stats file of an instance\<close>

text \<open>
  Claim C5 words the split of the pattern as a split at its last dot. The
  pattern \<open>out.d/stats\<close> has its last dot in a directory name: the code, which
  uses \<open>filepath.Ext\<close>, finds no extension and appends the instance number to
  the whole pattern, whereas a split at the last dot would put it before
  \<open>.d/stats\<close>.
\<close>

theorem stats_file_last_dot_counterexample:
  "statsFileFor ''/tmp/x'' ''out.d/stats'' 0 = ''/tmp/x/out.d/stats-instance-0''
   \<and> Join [''/tmp/x'', fst (split_at_last_dot ''out.d/stats'') @ ''-instance-'' @ fmt_d 0
              @ snd (split_at_last_dot ''out.d/stats'')] = ''/tmp/x/out-instance-0.d/stats''
   \<and> statsFileFor ''/tmp/x'' ''out.d/stats'' 0
       \<noteq> Join [''/tmp/x'', fst (split_at_last_dot ''out.d/stats'') @ ''-instance-'' @ fmt_d 0
              @ snd (split_at_last_dot ''out.d/stats'')]"
  by code_simp

text \<open>
  Claim C5, amended. An empty pattern gives the empty stats file path. For a
  pattern that is not empty, the stats file path of instance \<open>i\<close> is the base
  directory joined with stem, \<open>-instance-\<close>, the number \<open>i\<close> and extension, where
  the pattern is split at the last dot of its final path element, and the
  extension is empty when that element has no dot; for a pattern without a
  separator this is the split at its last dot. The data directory is the base
  directory joined with \<open>instance-\<close> and the number. With the base directory
  \<open>/tmp/x\<close> and the pattern \<open>stats.json\<close>, the instances 0 to 3 get the data
  directories \<open>/tmp/x/instance-0\<close> to \<open>/tmp/x/instance-3\<close> and the stats files
  \<open>/tmp/x/stats-instance-0.json\<close> to \<open>/tmp/x/stats-instance-3.json\<close>.
\<close>

theorem stats_file_path:
  "statsFileFor b [] i = []
   \<and> (pattern \<noteq> [] \<longrightarrow>
        statsFileFor b pattern i =
          Join [b, fst (split_at_final_element_dot pattern) @ ''-instance-'' @ fmt_d i
                   @ snd (split_at_final_element_dot pattern)])
   \<and> (CHR ''/'' \<notin> set pattern \<longrightarrow> split_at_final_element_dot pattern = split_at_last_dot pattern)
   \<and> DataDir (instanceOptions env fl b p u i) = Join [b, ''instance-'' @ fmt_d i]
   \<and> StatsFile (instanceOptions env fl b p u i) = statsFileFor b (multiStatsFilePattern fl) i
   \<and> map (\<lambda>k. Join [''/tmp/x'', ''instance-'' @ fmt_d k]) [0, 1, 2, 3]
       = [''/tmp/x/instance-0'', ''/tmp/x/instance-1'', ''/tmp/x/instance-2'', ''/tmp/x/instance-3'']
   \<and> map (statsFileFor ''/tmp/x'' ''stats.json'') [0, 1, 2, 3]
       = [''/tmp/x/stats-instance-0.json'', ''/tmp/x/stats-instance-1.json'',
          ''/tmp/x/stats-instance-2.json'', ''/tmp/x/stats-instance-3.json'']"
proof -
  have a: "statsFileFor b [] i = []" by (simp add: statsFileFor_def)
  have b: "pattern \<noteq> [] \<longrightarrow>
        statsFileFor b pattern i =
          Join [b, fst (split_at_final_element_dot pattern) @ ''-instance-'' @ fmt_d i
                   @ snd (split_at_final_element_dot pattern)]"
    by (simp add: statsFileFor_def Let_def Ext_split)
  have c: "CHR ''/'' \<notin> set pattern \<longrightarrow> split_at_final_element_dot pattern = split_at_last_dot pattern"
    by (simp add: split_no_sep)
  have d: "DataDir (instanceOptions env fl b p u i) = Join [b, ''instance-'' @ fmt_d i]"
    and e: "StatsFile (instanceOptions env fl b p u i) = statsFileFor b (multiStatsFilePattern fl) i"
    by (simp_all add: instanceOptions_def)
  have f: "map (\<lambda>k. Join [''/tmp/x'', ''instance-'' @ fmt_d k]) [0, 1, 2, 3]
       = [''/tmp/x/instance-0'', ''/tmp/x/instance-1'', ''/tmp/x/instance-2'', ''/tmp/x/instance-3'']"
    by code_simp
  have g: "map (statsFileFor ''/tmp/x'' ''stats.json'') [0, 1, 2, 3]
       = [''/tmp/x/stats-instance-0.json'', ''/tmp/x/stats-instance-1.json'',
          ''/tmp/x/stats-instance-2.json'', ''/tmp/x/stats-instance-3.json'']"
    by code_simp
  from a b c d e f g show ?thesis by blast
qed

theorem stats_file_path_witness:
  "''out.d/stats'' \<noteq> []
   \<and> split_at_final_element_dot ''out.d/stats'' = (''out.d/stats'', [])
   \<and> statsFileFor ''/tmp/x'' ''out.d/stats'' 0 = ''/tmp/x/out.d/stats-instance-0''
   \<and> CHR ''/'' \<notin> set ''stats.json''
   \<and> split_at_final_element_dot ''stats.json'' = (''stats'', ''.json'')
   \<and> split_at_last_dot ''stats.json'' = (''stats'', ''.json'')"
proof -
  have n: "''out.d/stats'' \<noteq> []" by simp
  have s: "split_at_final_element_dot ''out.d/stats'' = (''out.d/stats'', [])" by code_simp
  have j: "Join [''/tmp/x'', ''out.d/stats'' @ ''-instance-'' @ fmt_d 0 @ []]
             = ''/tmp/x/out.d/stats-instance-0''" by code_simp
  from stats_file_path [of "''/tmp/x''" 0 "''out.d/stats''" "example_env []" "example_flags 2 []" "[]" False] n s j
  have a: "statsFileFor ''/tmp/x'' ''out.d/stats'' 0 = ''/tmp/x/out.d/stats-instance-0''" by simp
  have m: "CHR ''/'' \<notin> set ''stats.json''" by simp
  have t: "split_at_final_element_dot ''stats.json'' = (''stats'', ''.json'')" by code_simp
  from stats_file_path [of "''/tmp/x''" 0 "''stats.json''" "example_env []" "example_flags 2 []" "[]" False] m t
  have b: "split_at_last_dot ''stats.json'' = (''stats'', ''.json'')" by simp
  from n s a m t b show ?thesis by blast
qed

subsection \<open>The flag \<open>--stats-file\<close>\<close>

text \<open>
  Claim C10 says that only omitting the flag leaves the pattern empty. The flag
  given with an explicit empty value, \<open>--stats-file=\<close>, leaves it empty as
  well, and no stats file is produced.
\<close>

theorem stats_flag_empty_value_counterexample:
  "parse_flag stats_file_flag [WithValue []] = []
   \<and> [WithValue []] \<noteq> ([] :: occurrence list)
   \<and> statsFileFor ''/tmp/x'' (parse_flag stats_file_flag [WithValue []]) 0 = []"
  by code_simp

text \<open>
  Claim C10, amended. Without the flag the pattern is empty; a last occurrence
  of the flag without a value selects \<open>stats.json\<close>; a last occurrence with a
  value selects that value. So the pattern is empty exactly when the flag is
  omitted or its last occurrence carries the empty value. The stats file path
  of every instance is empty exactly when the pattern is.
\<close>

theorem stats_flag_pattern:
  "parse_flag stats_file_flag [] = []
   \<and> parse_flag stats_file_flag (occs @ [NoValue]) = ''stats.json''
   \<and> parse_flag stats_file_flag (occs @ [WithValue v]) = v
   \<and> (parse_flag stats_file_flag occs = []) = (occs = [] \<or> last occs = WithValue [])
   \<and> (StatsFile (instanceOptions env fl b p u i) = []) = (multiStatsFilePattern fl = [])"
proof -
  have a: "parse_flag stats_file_flag [] = []"
    and b: "parse_flag stats_file_flag (occs @ [NoValue]) = ''stats.json''"
    and c: "parse_flag stats_file_flag (occs @ [WithValue v]) = v" for occs v
    by (simp_all add: parse_flag_def stats_file_flag_def set_flag_def)
  have d: "(parse_flag stats_file_flag occs = []) = (occs = [] \<or> last occs = WithValue [])"
  proof (cases occs rule: rev_cases)
    case Nil
    then show ?thesis using a by simp
  next
    case (snoc occs' occ)
    then show ?thesis using b [of occs'] c [of occs'] by (cases occ) auto
  qed
  have e: "(StatsFile (instanceOptions env fl b p u i) = []) = (multiStatsFilePattern fl = [])"
    by (simp add: instanceOptions_def statsFileFor_empty_iff)
  from a b c d e show ?thesis by blast
qed

theorem stats_flag_pattern_witness:
  "parse_flag stats_file_flag [] = []
   \<and> parse_flag stats_file_flag [NoValue] = ''stats.json''
   \<and> parse_flag stats_file_flag [NoValue, WithValue ''s.json''] = ''s.json''
   \<and> parse_flag stats_file_flag [NoValue, WithValue []] = []"
proof -
  note a = stats_flag_pattern [of "[]" "''s.json''" "example_env []" "example_flags 2 []" "[]" "[]" False 0]
  note b = stats_flag_pattern [of "[NoValue]" "''s.json''" "example_env []" "example_flags 2 []" "[]" "[]" False 0]
  note c = stats_flag_pattern [of "[NoValue]" "[]" "example_env []" "example_flags 2 []" "[]" "[]" False 0]
  from a b c show ?thesis by simp
qed

subsection \<open>Building an instance configuration\<close>

text \<open>
  Claim C7 says that building an instance configuration has no failure path.
  The loop calls \<open>config.LoadOrCreate\<close> and handles its error. On a host where
  the base directory could be created and the network configuration exists, but
  that call fails for the second instance, \<open>runMulti\<close> returns the error for
  instance 1 after the calls for the instances 0 and 1.
\<close>

theorem instance_config_never_fails_counterexample:
  "MkdirAll failing_env (GetDataDir failing_env) = None
   \<and> LoadOrCreate failing_env
       (instanceOptions failing_env (example_flags 2 []) ''/tmp/x'' ''psiphon.json'' False 1)
     = Inl ''cannot write key''
   \<and> runMulti failing_env (example_flags 2 [])
     = (Some (InstanceConfigFailed 1 ''cannot write key''),
        [EvStat ''psiphon.json'', EvMkdirAll ''/tmp/x'',
         EvLoadOrCreate (instanceOptions failing_env (example_flags 2 []) ''/tmp/x'' ''psiphon.json'' False 0),
         EvLoadOrCreate (instanceOptions failing_env (example_flags 2 []) ''/tmp/x'' ''psiphon.json'' False 1)])"
  by code_simp

lemma buildConfigs_first_failure:
  assumes k: "0 \<le> k" "k < multiInstances fl"
      and bad: "LoadOrCreate env (instanceOptions env fl b p u k) = Inl err"
      and ok: "\<forall>j. 0 \<le> j \<and> j < k \<longrightarrow> (\<exists>c. LoadOrCreate env (instanceOptions env fl b p u j) = Inr c)"
  shows "buildConfigs env fl b p u 0 [] =
           (Inl (InstanceConfigFailed k err),
            map (\<lambda>j. EvLoadOrCreate (instanceOptions env fl b p u j)) [0..k])"
proof -
  let ?opts = "instanceOptions env fl b p u"
  from buildConfigs_cases [of env fl b p u 0 "[]"]
  consider (ok) cfgs where
      "map Inr cfgs = map (\<lambda>j. LoadOrCreate env (?opts j)) [0..multiInstances fl - 1]"
    | (bad) k' err' where "0 \<le> k'" "k' < multiInstances fl"
      "LoadOrCreate env (?opts k') = Inl err'"
      "\<forall>j. 0 \<le> j \<and> j < k' \<longrightarrow> (\<exists>c. LoadOrCreate env (?opts j) = Inr c)"
      "buildConfigs env fl b p u 0 [] =
         (Inl (InstanceConfigFailed k' err'), map (\<lambda>j. EvLoadOrCreate (?opts j)) [0..k'])"
    by blast
  then show ?thesis
  proof cases
    case ok
    have "k \<in> set [0..multiInstances fl - 1]" using k by simp
    then have "LoadOrCreate env (?opts k) \<in> set (map (\<lambda>j. LoadOrCreate env (?opts j)) [0..multiInstances fl - 1])"
      by (simp only: set_map) (rule imageI)
    then have "LoadOrCreate env (?opts k) \<in> set (map Inr cfgs)" using ok by simp
    with bad show ?thesis by auto
  next
    case bad': bad
    have "k' = k"
    proof (rule ccontr)
      assume "k' \<noteq> k"
      then consider "k' < k" | "k < k'" by linarith
      then show False
      proof cases
        case 1
        with ok bad'(1) obtain c where "LoadOrCreate env (?opts k') = Inr c" by blast
        with bad'(3) show False by simp
      next
        case 2
        with bad'(4) k(1) obtain c where "LoadOrCreate env (?opts k) = Inr c" by blast
        with bad show False by simp
      qed
    qed
    with bad'(3,5) bad show ?thesis by simp
  qed
qed

lemma buildConfigs_all_succeed:
  assumes "\<forall>j. 0 \<le> j \<and> j < multiInstances fl \<longrightarrow>
             (\<exists>c. LoadOrCreate env (instanceOptions env fl b p u j) = Inr c)"
  shows "\<exists>cfgs. buildConfigs env fl b p u 0 [] =
             (Inr cfgs, map (\<lambda>j. EvLoadOrCreate (instanceOptions env fl b p u j)) [0..multiInstances fl - 1])
           \<and> map Inr cfgs = map (\<lambda>j. LoadOrCreate env (instanceOptions env fl b p u j)) [0..multiInstances fl - 1]"
proof -
  let ?opts = "instanceOptions env fl b p u"
  from buildConfigs_cases [of env fl b p u 0 "[]"]
  consider (ok) cfgs where
      "buildConfigs env fl b p u 0 [] =
         (Inr cfgs, map (\<lambda>j. EvLoadOrCreate (?opts j)) [0..multiInstances fl - 1])"
      "map Inr cfgs = map (\<lambda>j. LoadOrCreate env (?opts j)) [0..multiInstances fl - 1]"
    | (bad) k' err' where "0 \<le> k'" "k' < multiInstances fl"
      "LoadOrCreate env (?opts k') = Inl err'"
    by auto
  then show ?thesis
  proof cases
    case ok
    then show ?thesis by blast
  next
    case bad
    with assms obtain c where "LoadOrCreate env (?opts k') = Inr c" by blast
    with bad(3) show ?thesis by simp
  qed
qed

lemma runService_error: "fst (runService env fl svc) \<noteq> Some (InstanceConfigFailed k err)"
  by (cases "Run env svc") (simp_all add: runService_def Let_def)

lemma createService_config_failed:
  assumes "createService env fl p u = (Inl (InstanceConfigFailed k err), tr)"
  shows "LoadOrCreate env (instanceOptions env fl (GetDataDir env) p u k) = Inl err
         \<and> EvRun \<notin> set tr \<and> (\<forall>n. EvNewMultiService n \<notin> set tr)"
proof (cases "MkdirAll env (GetDataDir env)")
  case (Some e)
  with assms show ?thesis by (simp add: createService_def)
next
  case None
  let ?b = "GetDataDir env"
  obtain r tr' where bc: "buildConfigs env fl ?b p u 0 [] = (r, tr')"
    by (cases "buildConfigs env fl ?b p u 0 []")
  show ?thesis
  proof (cases r)
    case (Inr cfgs)
    with None bc assms show ?thesis
      by (cases "NewMultiService env cfgs") (simp_all add: createService_def)
  next
    case (Inl e)
    with None bc assms have e: "e = InstanceConfigFailed k err" and tr: "tr = EvMkdirAll ?b # tr'"
      by (simp_all add: createService_def)
    from buildConfigs_cases [of env fl ?b p u 0 "[]"] bc Inl e
    have "LoadOrCreate env (instanceOptions env fl ?b p u k) = Inl err" by auto
    moreover have "EvRun \<notin> set tr'" "\<And>n. EvNewMultiService n \<notin> set tr'"
      using buildConfigs_trace [of _ env fl ?b p u 0 "[]"] bc by auto
    ultimately show ?thesis using tr by simp
  qed
qed

lemma runMulti_config_failed:
  assumes "fst (runMulti env fl) = Some (InstanceConfigFailed k err)"
  shows "LoadOrCreate env (instanceOptions env fl (GetDataDir env) (multiPsiphonConfig fl)
                             (multiPsiphonConfig fl = []) k) = Inl err
         \<and> EvRun \<notin> set (snd (runMulti env fl))
         \<and> (\<forall>n. EvNewMultiService n \<notin> set (snd (runMulti env fl)))"
proof -
  let ?p = "multiPsiphonConfig fl"
  obtain r tr where s: "setupMulti env fl = (r, tr)" by (cases "setupMulti env fl")
  have r: "r = Inl (InstanceConfigFailed k err)"
  proof (cases r)
    case (Inl e)
    with s assms show ?thesis by (simp add: runMulti_def)
  next
    case (Inr svc)
    obtain r' tr' where rs: "runService env fl svc = (r', tr')" by (cases "runService env fl svc")
    with s Inr assms have "fst (runService env fl svc) = Some (InstanceConfigFailed k err)"
      by (simp add: runMulti_def)
    then have False using runService_error [of env fl svc k err] by simp
    then show ?thesis ..
  qed
  then have rm: "snd (runMulti env fl) = tr" using s by (simp add: runMulti_def)
  have range: "\<not> (multiInstances fl < 1 \<or> multiInstances fl > 32)"
    using s r by (auto simp: setupMulti_def)
  obtain r2 tr2 where c: "createService env fl ?p (?p = []) = (r2, tr2)"
    by (cases "createService env fl ?p (?p = [])")
  have "r2 = r \<and> (tr = tr2 \<or> tr = EvStat ?p # tr2)"
  proof (cases "?p = []")
    case True
    with range s r c show ?thesis by (auto simp: setupMulti_def split: if_splits)
  next
    case False
    with range s r c show ?thesis by (auto simp: setupMulti_def split: if_splits)
  qed
  with r c have c': "createService env fl ?p (?p = []) = (Inl (InstanceConfigFailed k err), tr2)"
    and tr: "tr = tr2 \<or> tr = EvStat ?p # tr2" by simp_all
  from createService_config_failed [OF c'] tr rm show ?thesis by auto
qed

text \<open>
  Claim C7, amended. The options of an instance are computed without failure
  and without any action: the two paths, and the shared values copied as they
  are. The configuration is built from them by \<open>config.LoadOrCreate\<close>, whose
  error the loop handles: the loop stops at the first instance for which the call
  fails and returns the error naming that instance and wrapping the cause, after
  the calls for the instances up to it; when the call succeeds for every
  instance, the loop returns its results in the order of the instances. When
  \<open>runMulti\<close> returns such an error, \<open>config.LoadOrCreate\<close> did fail for that
  instance, and the multi-instance service was neither created nor run.
\<close>

theorem instance_config_failure:
  "instanceOptions env fl b p u i =
      \<lparr>DataDir = Join [b, ''instance-'' @ fmt_d i], PsiphonConfigPath = p, UseEmbeddedConfig = u,
       MaxClients = multiMaxClients fl, BandwidthMbps = multiBandwidthMbps fl,
       Verbosity = cmdVerbosity env, StatsFile = statsFileFor b (multiStatsFilePattern fl) i\<rparr>
   \<and> (0 \<le> k \<and> k < multiInstances fl
      \<and> LoadOrCreate env (instanceOptions env fl b p u k) = Inl err
      \<and> (\<forall>j. 0 \<le> j \<and> j < k \<longrightarrow> (\<exists>c. LoadOrCreate env (instanceOptions env fl b p u j) = Inr c))
      \<longrightarrow> buildConfigs env fl b p u 0 [] =
            (Inl (InstanceConfigFailed k err),
             map (\<lambda>j. EvLoadOrCreate (instanceOptions env fl b p u j)) [0..k]))
   \<and> ((\<forall>j. 0 \<le> j \<and> j < multiInstances fl \<longrightarrow>
           (\<exists>c. LoadOrCreate env (instanceOptions env fl b p u j) = Inr c))
      \<longrightarrow> (\<exists>cfgs. buildConfigs env fl b p u 0 [] =
             (Inr cfgs, map (\<lambda>j. EvLoadOrCreate (instanceOptions env fl b p u j)) [0..multiInstances fl - 1])
           \<and> map Inr cfgs = map (\<lambda>j. LoadOrCreate env (instanceOptions env fl b p u j))
                               [0..multiInstances fl - 1]))
   \<and> (fst (runMulti env fl) = Some (InstanceConfigFailed k err)
      \<longrightarrow> LoadOrCreate env (instanceOptions env fl (GetDataDir env) (multiPsiphonConfig fl)
                             (multiPsiphonConfig fl = []) k) = Inl err
          \<and> EvRun \<notin> set (snd (runMulti env fl))
          \<and> (\<forall>n. EvNewMultiService n \<notin> set (snd (runMulti env fl))))"
proof -
  have opts: "instanceOptions env fl b p u i =
      \<lparr>DataDir = Join [b, ''instance-'' @ fmt_d i], PsiphonConfigPath = p, UseEmbeddedConfig = u,
       MaxClients = multiMaxClients fl, BandwidthMbps = multiBandwidthMbps fl,
       Verbosity = cmdVerbosity env, StatsFile = statsFileFor b (multiStatsFilePattern fl) i\<rparr>"
    by (simp add: instanceOptions_def)
  from opts buildConfigs_first_failure [of k fl env b p u err]
       buildConfigs_all_succeed [of fl env b p u]
       runMulti_config_failed [of env fl k err]
  show ?thesis by blast
qed

theorem instance_config_failure_witness:
  "(0::int) \<le> 1 \<and> 1 < multiInstances (example_flags 2 [])
   \<and> LoadOrCreate failing_env
         (instanceOptions failing_env (example_flags 2 []) ''/tmp/x'' ''psiphon.json'' False 1)
       = Inl ''cannot write key''
   \<and> LoadOrCreate failing_env
         (instanceOptions failing_env (example_flags 2 []) ''/tmp/x'' ''psiphon.json'' False 0)
       = Inr (instanceOptions failing_env (example_flags 2 []) ''/tmp/x'' ''psiphon.json'' False 0)
   \<and> buildConfigs failing_env (example_flags 2 []) ''/tmp/x'' ''psiphon.json'' False 0 []
       = (Inl (InstanceConfigFailed 1 ''cannot write key''),
          map (\<lambda>j. EvLoadOrCreate
                 (instanceOptions failing_env (example_flags 2 []) ''/tmp/x'' ''psiphon.json'' False j))
              [0..1])
   \<and> fst (runMulti failing_env (example_flags 2 [])) = Some (InstanceConfigFailed 1 ''cannot write key'')
   \<and> EvRun \<notin> set (snd (runMulti failing_env (example_flags 2 [])))
   \<and> fst (buildConfigs (example_env []) (example_flags 2 []) ''/tmp/x'' ''psiphon.json'' False 0 [])
       = Inr (map (instanceOptions (example_env []) (example_flags 2 []) ''/tmp/x'' ''psiphon.json'' False)
                  [0..1])"
proof -
  let ?F = "example_flags 2 []"
  let ?O = "instanceOptions failing_env ?F ''/tmp/x'' ''psiphon.json'' False"
  let ?O' = "instanceOptions (example_env []) ?F ''/tmp/x'' ''psiphon.json'' False"
  have k: "(0::int) \<le> 1" "1 < multiInstances ?F" by (simp_all add: example_flags_def)
  have bad: "LoadOrCreate failing_env (?O 1) = Inl ''cannot write key''" by code_simp
  have ok0: "LoadOrCreate failing_env (?O 0) = Inr (?O 0)" by code_simp
  have ok: "\<forall>j. 0 \<le> j \<and> j < 1 \<longrightarrow> (\<exists>c. LoadOrCreate failing_env (?O j) = Inr c)"
  proof (intro allI impI)
    fix j :: int
    assume "0 \<le> j \<and> j < 1"
    then have "j = 0" by linarith
    with ok0 show "\<exists>c. LoadOrCreate failing_env (?O j) = Inr c" by blast
  qed
  have r: "fst (runMulti failing_env ?F) = Some (InstanceConfigFailed 1 ''cannot write key'')"
    by code_simp
  note inst = instance_config_failure
    [of failing_env ?F "''/tmp/x''" "''psiphon.json''" False 0 1 "''cannot write key''"]
  from inst k bad ok
  have a: "buildConfigs failing_env ?F ''/tmp/x'' ''psiphon.json'' False 0 []
       = (Inl (InstanceConfigFailed 1 ''cannot write key''), map (\<lambda>j. EvLoadOrCreate (?O j)) [0..1])"
    by blast
  from inst r have b: "EvRun \<notin> set (snd (runMulti failing_env ?F))" by blast
  have c: "fst (buildConfigs (example_env []) ?F ''/tmp/x'' ''psiphon.json'' False 0 [])
       = Inr (map ?O' [0..1])" by code_simp
  from k bad ok0 a r b c show ?thesis by blast
qed

section \<open>Properties of the metric helpers\<close>

lemma find_snoc:
  "find P (xs @ [y]) = (case find P xs of Some x \<Rightarrow> Some x | None \<Rightarrow> (if P y then Some y else None))"
  by (induction xs) auto

lemma registerOrExisting_existing:
  assumes "Register st1 ev = (st2, Some (AlreadyRegisteredError existing nw))"
  shows "registerOrExisting assertType (ev, st1) =
           (st2, if assertType existing then Returned existing else Panic (PanicString different_type))"
  using assms by (simp add: registerOrExisting_def)

lemma registerOrExisting_other:
  assumes "Register st1 ev = (st2, Some err)"
      and "err = InvalidDescriptor \<or> err = InconsistentDescriptor"
  shows "registerOrExisting assertType (ev, st1) = (st2, Panic (PanicError err))"
  using assms by (auto simp: registerOrExisting_def)

lemma registerOrExisting_again:
  assumes first: "registerOrExisting assertType (allocate st k gaugeOpts labels f) = (st1, Returned g)"
      and own: "\<And>c. kind c = k \<Longrightarrow> assertType c"
  shows "registerOrExisting assertType (allocate st1 k gaugeOpts labels f') =
           (st1\<lparr>nextAddr := nextAddr st1 + 1\<rparr>, Returned g)"
proof -
  let ?ev = "fst (allocate st k gaugeOpts labels f)"
  let ?d = "\<lparr>fqName = Name gaugeOpts, helpText = Help gaugeOpts, labelNames = labels\<rparr>"
  let ?P = "\<lambda>e. fqName (desc e) = Name gaugeOpts"
  have name: "Name gaugeOpts \<noteq> []"
    using first by (auto simp: registerOrExisting_def allocate_def Register_def)
  show ?thesis
  proof (cases "find ?P (registered st)")
    case None
    with first name have g: "g = ?ev"
      and st1: "st1 = st\<lparr>nextAddr := nextAddr st + 1, registered := registered st @ [?ev]\<rparr>"
      by (auto simp: registerOrExisting_def allocate_def Register_def)
    have "find ?P (registered st1) = Some g"
      using None g st1 by (simp add: find_snoc allocate_def)
    moreover have "helpText (desc g) = Help gaugeOpts" "labelNames (desc g) = labels" "kind g = k"
      using g by (simp_all add: allocate_def)
    ultimately show ?thesis
      using name own [of g] by (simp add: registerOrExisting_def allocate_def Register_def)
  next
    case (Some e)
    with first name have match: "helpText (desc e) = Help gaugeOpts \<and> labelNames (desc e) = labels"
      by (auto simp: registerOrExisting_def allocate_def Register_def split: if_splits)
    with first name Some have g: "g = e" and a: "assertType e"
      and st1: "st1 = st\<lparr>nextAddr := nextAddr st + 1\<rparr>"
      by (auto simp: registerOrExisting_def allocate_def Register_def split: if_splits)
    have "find ?P (registered st1) = Some e" using Some st1 by simp
    then show ?thesis
      using name match g a by (simp add: registerOrExisting_def allocate_def Register_def)
  qed
qed

text \<open>
  Claim C8 asks only for the same name and a compatible type. A gauge is
  registered under a name; \<open>newGauge\<close> called with that name and another help
  text does not return the registered gauge: \<open>Register\<close> refuses the descriptor
  with an error that is not \<open>AlreadyRegisteredError\<close>, and the helper panics.
\<close>

theorem same_name_other_help_counterexample:
  "first_gauge \<in> set (registered registered_once)
   \<and> fqName (desc first_gauge) = Name other_help_opts
   \<and> asGauge first_gauge
   \<and> newGauge registered_once other_help_opts
       = (registered_once\<lparr>nextAddr := 2\<rparr>, Panic (PanicError InconsistentDescriptor))"
  by (simp add: newGauge_def NewGauge_def allocate_def registerOrExisting_def Register_def
        other_help_opts_def registered_once_def first_gauge_def asGauge_def)

lemma registerOrExisting_equal_descriptor:
  assumes "Name gaugeOpts \<noteq> []"
      and "find (\<lambda>e. fqName (desc e) = Name gaugeOpts) (registered st) = Some existing"
      and "helpText (desc existing) = Help gaugeOpts" and "labelNames (desc existing) = labels"
      and "assertType existing"
  shows "registerOrExisting assertType (allocate st k gaugeOpts labels f)
           = (st\<lparr>nextAddr := nextAddr st + 1\<rparr>, Returned existing)"
  using assms by (simp add: registerOrExisting_def allocate_def Register_def)

lemma registerOrExisting_cannot_cast:
  assumes "find (\<lambda>e. fqName (desc e) = Name gaugeOpts) (registered st) = Some existing"
      and "\<not> assertType existing"
  shows "\<exists>pv. snd (registerOrExisting assertType (allocate st k gaugeOpts labels f)) = Panic pv"
  using assms by (simp add: registerOrExisting_def allocate_def Register_def)

text \<open>
  Claim C8, amended. For each of the three helpers: when \<open>Register\<close> answers
  that a collector is already registered and that collector has the type the
  helper asserts, the helper returns it, with neither a panic nor an error; this
  is the case when the collector registered under the name has the same help
  text and the same label names. Hence a helper called again with the options of
  a call that returned yields the very same collector and leaves the registered
  collectors as they were.
\<close>

theorem registration_returns_existing:
  "(NewGauge st gaugeOpts = (ev, st1)
      \<and> Register st1 ev = (st2, Some (AlreadyRegisteredError existing nw)) \<and> asGauge existing
      \<longrightarrow> newGauge st gaugeOpts = (st2, Returned existing))
   \<and> (NewGaugeVec st gaugeOpts labels = (ev, st1)
      \<and> Register st1 ev = (st2, Some (AlreadyRegisteredError existing nw)) \<and> asGaugeVec existing
      \<longrightarrow> newGaugeVec st gaugeOpts labels = (st2, Returned existing))
   \<and> (NewGaugeFunc st gaugeOpts f = (ev, st1)
      \<and> Register st1 ev = (st2, Some (AlreadyRegisteredError existing nw)) \<and> asGaugeFunc existing
      \<longrightarrow> newGaugeFunc st gaugeOpts f = (st2, Returned existing))
   \<and> (Name gaugeOpts \<noteq> []
      \<and> find (\<lambda>e. fqName (desc e) = Name gaugeOpts) (registered st) = Some existing
      \<and> helpText (desc existing) = Help gaugeOpts \<and> labelNames (desc existing) = []
      \<and> asGauge existing
      \<longrightarrow> newGauge st gaugeOpts = (st\<lparr>nextAddr := nextAddr st + 1\<rparr>, Returned existing))
   \<and> (Name gaugeOpts \<noteq> []
      \<and> find (\<lambda>e. fqName (desc e) = Name gaugeOpts) (registered st) = Some existing
      \<and> helpText (desc existing) = Help gaugeOpts \<and> labelNames (desc existing) = labels
      \<and> asGaugeVec existing
      \<longrightarrow> newGaugeVec st gaugeOpts labels
            = (st\<lparr>nextAddr := nextAddr st + 1\<rparr>, Returned existing))
   \<and> (Name gaugeOpts \<noteq> []
      \<and> find (\<lambda>e. fqName (desc e) = Name gaugeOpts) (registered st) = Some existing
      \<and> helpText (desc existing) = Help gaugeOpts \<and> labelNames (desc existing) = []
      \<and> asGaugeFunc existing
      \<longrightarrow> newGaugeFunc st gaugeOpts f
            = (st\<lparr>nextAddr := nextAddr st + 1\<rparr>, Returned existing))
   \<and> (newGauge st gaugeOpts = (st', Returned g)
      \<longrightarrow> snd (newGauge st' gaugeOpts) = Returned g
          \<and> registered (fst (newGauge st' gaugeOpts)) = registered st')
   \<and> (newGaugeVec st gaugeOpts labels = (st', Returned g)
      \<longrightarrow> snd (newGaugeVec st' gaugeOpts labels) = Returned g
          \<and> registered (fst (newGaugeVec st' gaugeOpts labels)) = registered st')
   \<and> (newGaugeFunc st gaugeOpts f = (st', Returned g)
      \<longrightarrow> snd (newGaugeFunc st' gaugeOpts f') = Returned g
          \<and> registered (fst (newGaugeFunc st' gaugeOpts f')) = registered st')"
proof (intro conjI impI)
  assume "NewGauge st gaugeOpts = (ev, st1)
      \<and> Register st1 ev = (st2, Some (AlreadyRegisteredError existing nw)) \<and> asGauge existing"
  then show "newGauge st gaugeOpts = (st2, Returned existing)"
    by (simp add: newGauge_def registerOrExisting_existing)
next
  assume "NewGaugeVec st gaugeOpts labels = (ev, st1)
      \<and> Register st1 ev = (st2, Some (AlreadyRegisteredError existing nw)) \<and> asGaugeVec existing"
  then show "newGaugeVec st gaugeOpts labels = (st2, Returned existing)"
    by (simp add: newGaugeVec_def registerOrExisting_existing)
next
  assume "NewGaugeFunc st gaugeOpts f = (ev, st1)
      \<and> Register st1 ev = (st2, Some (AlreadyRegisteredError existing nw)) \<and> asGaugeFunc existing"
  then show "newGaugeFunc st gaugeOpts f = (st2, Returned existing)"
    by (simp add: newGaugeFunc_def registerOrExisting_existing)
next
  assume "Name gaugeOpts \<noteq> []
      \<and> find (\<lambda>e. fqName (desc e) = Name gaugeOpts) (registered st) = Some existing
      \<and> helpText (desc existing) = Help gaugeOpts \<and> labelNames (desc existing) = []
      \<and> asGauge existing"
  then show "newGauge st gaugeOpts = (st\<lparr>nextAddr := nextAddr st + 1\<rparr>, Returned existing)"
    by (simp add: newGauge_def NewGauge_def registerOrExisting_equal_descriptor)
next
  assume "Name gaugeOpts \<noteq> []
      \<and> find (\<lambda>e. fqName (desc e) = Name gaugeOpts) (registered st) = Some existing
      \<and> helpText (desc existing) = Help gaugeOpts \<and> labelNames (desc existing) = labels
      \<and> asGaugeVec existing"
  then show "newGaugeVec st gaugeOpts labels
            = (st\<lparr>nextAddr := nextAddr st + 1\<rparr>, Returned existing)"
    by (simp add: newGaugeVec_def NewGaugeVec_def registerOrExisting_equal_descriptor)
next
  assume "Name gaugeOpts \<noteq> []
      \<and> find (\<lambda>e. fqName (desc e) = Name gaugeOpts) (registered st) = Some existing
      \<and> helpText (desc existing) = Help gaugeOpts \<and> labelNames (desc existing) = []
      \<and> asGaugeFunc existing"
  then show "newGaugeFunc st gaugeOpts f
            = (st\<lparr>nextAddr := nextAddr st + 1\<rparr>, Returned existing)"
    by (simp add: newGaugeFunc_def NewGaugeFunc_def registerOrExisting_equal_descriptor)
next
  assume "newGauge st gaugeOpts = (st', Returned g)"
  then have "newGauge st' gaugeOpts = (st'\<lparr>nextAddr := nextAddr st' + 1\<rparr>, Returned g)"
    unfolding newGauge_def NewGauge_def
    by (rule registerOrExisting_again) (simp add: asGauge_def)
  then show "snd (newGauge st' gaugeOpts) = Returned g"
    and "registered (fst (newGauge st' gaugeOpts)) = registered st'" by simp_all
next
  assume "newGaugeVec st gaugeOpts labels = (st', Returned g)"
  then have "newGaugeVec st' gaugeOpts labels = (st'\<lparr>nextAddr := nextAddr st' + 1\<rparr>, Returned g)"
    unfolding newGaugeVec_def NewGaugeVec_def
    by (rule registerOrExisting_again) (simp add: asGaugeVec_def)
  then show "snd (newGaugeVec st' gaugeOpts labels) = Returned g"
    and "registered (fst (newGaugeVec st' gaugeOpts labels)) = registered st'" by simp_all
next
  assume "newGaugeFunc st gaugeOpts f = (st', Returned g)"
  then have "newGaugeFunc st' gaugeOpts f' = (st'\<lparr>nextAddr := nextAddr st' + 1\<rparr>, Returned g)"
    unfolding newGaugeFunc_def NewGaugeFunc_def
    by (rule registerOrExisting_again) (simp add: asGaugeFunc_def)
  then show "snd (newGaugeFunc st' gaugeOpts f') = Returned g"
    and "registered (fst (newGaugeFunc st' gaugeOpts f')) = registered st'" by simp_all
qed

theorem registration_returns_existing_witness:
  "newGauge empty_registry example_opts = (registered_once, Returned first_gauge)
   \<and> snd (newGauge registered_once example_opts) = Returned first_gauge
   \<and> registered (fst (newGauge registered_once example_opts)) = [first_gauge]
   \<and> NewGaugeFunc registered_once example_opts (\<lambda>_. 1)
       = (fst (NewGaugeFunc registered_once example_opts (\<lambda>_. 1)), registered_once\<lparr>nextAddr := 2\<rparr>)
   \<and> Register (registered_once\<lparr>nextAddr := 2\<rparr>) (fst (NewGaugeFunc registered_once example_opts (\<lambda>_. 1)))
       = (registered_once\<lparr>nextAddr := 2\<rparr>,
          Some (AlreadyRegisteredError first_gauge (fst (NewGaugeFunc registered_once example_opts (\<lambda>_. 1)))))
   \<and> asGaugeFunc first_gauge
   \<and> newGaugeFunc registered_once example_opts (\<lambda>_. 1)
       = (registered_once\<lparr>nextAddr := 2\<rparr>, Returned first_gauge)"
proof -
  let ?ev = "fst (NewGaugeFunc registered_once example_opts (\<lambda>_. 1))"
  let ?st1 = "registered_once\<lparr>nextAddr := 2\<rparr>"
  have a: "newGauge empty_registry example_opts = (registered_once, Returned first_gauge)"
    by (simp add: newGauge_def NewGauge_def allocate_def registerOrExisting_def Register_def
        empty_registry_def example_opts_def registered_once_def first_gauge_def)
  have b: "NewGaugeFunc registered_once example_opts (\<lambda>_. 1) = (?ev, ?st1)"
    by (simp add: NewGaugeFunc_def allocate_def registered_once_def)
  have c: "Register ?st1 ?ev = (?st1, Some (AlreadyRegisteredError first_gauge ?ev))"
    by (simp add: NewGaugeFunc_def allocate_def Register_def example_opts_def
        registered_once_def first_gauge_def)
  have d: "asGaugeFunc first_gauge" by (simp add: asGaugeFunc_def first_gauge_def)
  from registration_returns_existing
         [of registered_once example_opts ?ev ?st1 ?st1 first_gauge ?ev _ "\<lambda>_. 1"] b c d
  have e: "newGaugeFunc registered_once example_opts (\<lambda>_. 1) = (?st1, Returned first_gauge)"
    by blast
  from registration_returns_existing
         [of empty_registry example_opts _ _ _ _ _ _ _ registered_once first_gauge] a
  have f: "snd (newGauge registered_once example_opts) = Returned first_gauge"
    and g: "registered (fst (newGauge registered_once example_opts)) = registered registered_once"
    by blast+
  have h: "registered registered_once = [first_gauge]" by (simp add: registered_once_def)
  from a b c d e f g h show ?thesis by simp
qed

text \<open>
  Claim C9. For each of the three helpers: when the collector already
  registered under the name cannot be cast to the type the helper asserts, the
  helper panics, with the message \<open>different metric type registration\<close> when
  \<open>Register\<close> answered \<open>AlreadyRegisteredError\<close>; when \<open>Register\<close> fails
  with any error that is not \<open>AlreadyRegisteredError\<close>, the helper panics with
  that error. No helper returns an error.
\<close>

theorem registration_panics:
  "(NewGauge st gaugeOpts = (ev, st1)
      \<and> Register st1 ev = (st2, Some (AlreadyRegisteredError existing nw)) \<and> \<not> asGauge existing
      \<longrightarrow> newGauge st gaugeOpts = (st2, Panic (PanicString different_type)))
   \<and> (NewGaugeVec st gaugeOpts labels = (ev, st1)
      \<and> Register st1 ev = (st2, Some (AlreadyRegisteredError existing nw)) \<and> \<not> asGaugeVec existing
      \<longrightarrow> newGaugeVec st gaugeOpts labels = (st2, Panic (PanicString different_type)))
   \<and> (NewGaugeFunc st gaugeOpts f = (ev, st1)
      \<and> Register st1 ev = (st2, Some (AlreadyRegisteredError existing nw)) \<and> \<not> asGaugeFunc existing
      \<longrightarrow> newGaugeFunc st gaugeOpts f = (st2, Panic (PanicString different_type)))
   \<and> (NewGauge st gaugeOpts = (ev, st1) \<and> Register st1 ev = (st2, Some err)
      \<and> (err = InvalidDescriptor \<or> err = InconsistentDescriptor)
      \<longrightarrow> newGauge st gaugeOpts = (st2, Panic (PanicError err)))
   \<and> (NewGaugeVec st gaugeOpts labels = (ev, st1) \<and> Register st1 ev = (st2, Some err)
      \<and> (err = InvalidDescriptor \<or> err = InconsistentDescriptor)
      \<longrightarrow> newGaugeVec st gaugeOpts labels = (st2, Panic (PanicError err)))
   \<and> (NewGaugeFunc st gaugeOpts f = (ev, st1) \<and> Register st1 ev = (st2, Some err)
      \<and> (err = InvalidDescriptor \<or> err = InconsistentDescriptor)
      \<longrightarrow> newGaugeFunc st gaugeOpts f = (st2, Panic (PanicError err)))
   \<and> (find (\<lambda>e. fqName (desc e) = Name gaugeOpts) (registered st) = Some existing
      \<and> \<not> asGauge existing
      \<longrightarrow> (\<exists>pv. snd (newGauge st gaugeOpts) = Panic pv))
   \<and> (find (\<lambda>e. fqName (desc e) = Name gaugeOpts) (registered st) = Some existing
      \<and> \<not> asGaugeVec existing
      \<longrightarrow> (\<exists>pv. snd (newGaugeVec st gaugeOpts labels) = Panic pv))
   \<and> (find (\<lambda>e. fqName (desc e) = Name gaugeOpts) (registered st) = Some existing
      \<and> \<not> asGaugeFunc existing
      \<longrightarrow> (\<exists>pv. snd (newGaugeFunc st gaugeOpts f) = Panic pv))"
proof -
  have branches:
    "(NewGauge st gaugeOpts = (ev, st1)
      \<and> Register st1 ev = (st2, Some (AlreadyRegisteredError existing nw)) \<and> \<not> asGauge existing
      \<longrightarrow> newGauge st gaugeOpts = (st2, Panic (PanicString different_type)))
   \<and> (NewGaugeVec st gaugeOpts labels = (ev, st1)
      \<and> Register st1 ev = (st2, Some (AlreadyRegisteredError existing nw)) \<and> \<not> asGaugeVec existing
      \<longrightarrow> newGaugeVec st gaugeOpts labels = (st2, Panic (PanicString different_type)))
   \<and> (NewGaugeFunc st gaugeOpts f = (ev, st1)
      \<and> Register st1 ev = (st2, Some (AlreadyRegisteredError existing nw)) \<and> \<not> asGaugeFunc existing
      \<longrightarrow> newGaugeFunc st gaugeOpts f = (st2, Panic (PanicString different_type)))
   \<and> (NewGauge st gaugeOpts = (ev, st1) \<and> Register st1 ev = (st2, Some err)
      \<and> (err = InvalidDescriptor \<or> err = InconsistentDescriptor)
      \<longrightarrow> newGauge st gaugeOpts = (st2, Panic (PanicError err)))
   \<and> (NewGaugeVec st gaugeOpts labels = (ev, st1) \<and> Register st1 ev = (st2, Some err)
      \<and> (err = InvalidDescriptor \<or> err = InconsistentDescriptor)
      \<longrightarrow> newGaugeVec st gaugeOpts labels = (st2, Panic (PanicError err)))
   \<and> (NewGaugeFunc st gaugeOpts f = (ev, st1) \<and> Register st1 ev = (st2, Some err)
      \<and> (err = InvalidDescriptor \<or> err = InconsistentDescriptor)
      \<longrightarrow> newGaugeFunc st gaugeOpts f = (st2, Panic (PanicError err)))"
    by (simp add: newGauge_def newGaugeVec_def newGaugeFunc_def
          registerOrExisting_existing registerOrExisting_other)
  have registered:
    "(find (\<lambda>e. fqName (desc e) = Name gaugeOpts) (registered st) = Some existing
      \<and> \<not> asGauge existing
      \<longrightarrow> (\<exists>pv. snd (newGauge st gaugeOpts) = Panic pv))
   \<and> (find (\<lambda>e. fqName (desc e) = Name gaugeOpts) (registered st) = Some existing
      \<and> \<not> asGaugeVec existing
      \<longrightarrow> (\<exists>pv. snd (newGaugeVec st gaugeOpts labels) = Panic pv))
   \<and> (find (\<lambda>e. fqName (desc e) = Name gaugeOpts) (registered st) = Some existing
      \<and> \<not> asGaugeFunc existing
      \<longrightarrow> (\<exists>pv. snd (newGaugeFunc st gaugeOpts f) = Panic pv))"
    unfolding newGauge_def newGaugeVec_def newGaugeFunc_def
      NewGauge_def NewGaugeVec_def NewGaugeFunc_def
    using registerOrExisting_cannot_cast by blast
  from branches registered show ?thesis by blast
qed


theorem registration_panics_witness:
  "NewGaugeVec registered_once example_opts []
       = (fst (NewGaugeVec registered_once example_opts []), registered_once\<lparr>nextAddr := 2\<rparr>)
   \<and> Register (registered_once\<lparr>nextAddr := 2\<rparr>) (fst (NewGaugeVec registered_once example_opts []))
       = (registered_once\<lparr>nextAddr := 2\<rparr>,
          Some (AlreadyRegisteredError first_gauge (fst (NewGaugeVec registered_once example_opts []))))
   \<and> \<not> asGaugeVec first_gauge
   \<and> newGaugeVec registered_once example_opts []
       = (registered_once\<lparr>nextAddr := 2\<rparr>, Panic (PanicString different_type))
   \<and> NewGaugeVec registered_once example_opts [''instance'']
       = (fst (NewGaugeVec registered_once example_opts [''instance'']), registered_once\<lparr>nextAddr := 2\<rparr>)
   \<and> Register (registered_once\<lparr>nextAddr := 2\<rparr>)
         (fst (NewGaugeVec registered_once example_opts [''instance'']))
       = (registered_once\<lparr>nextAddr := 2\<rparr>, Some InconsistentDescriptor)
   \<and> newGaugeVec registered_once example_opts [''instance'']
       = (registered_once\<lparr>nextAddr := 2\<rparr>, Panic (PanicError InconsistentDescriptor))"
proof -
  let ?ev = "fst (NewGaugeVec registered_once example_opts [])"
  let ?ev' = "fst (NewGaugeVec registered_once example_opts [''instance''])"
  let ?st1 = "registered_once\<lparr>nextAddr := 2\<rparr>"
  have a: "NewGaugeVec registered_once example_opts [] = (?ev, ?st1)"
    by (simp add: NewGaugeVec_def allocate_def registered_once_def)
  have b: "Register ?st1 ?ev = (?st1, Some (AlreadyRegisteredError first_gauge ?ev))"
    by (simp add: NewGaugeVec_def allocate_def Register_def example_opts_def
        registered_once_def first_gauge_def)
  have c: "\<not> asGaugeVec first_gauge" by (simp add: asGaugeVec_def first_gauge_def)
  have a': "NewGaugeVec registered_once example_opts [''instance''] = (?ev', ?st1)"
    by (simp add: NewGaugeVec_def allocate_def registered_once_def)
  have b': "Register ?st1 ?ev' = (?st1, Some InconsistentDescriptor)"
    by (simp add: NewGaugeVec_def allocate_def Register_def example_opts_def
        registered_once_def first_gauge_def)
  from registration_panics [of registered_once example_opts ?ev ?st1 ?st1 first_gauge ?ev "[]"] a b c
  have d: "newGaugeVec registered_once example_opts [] = (?st1, Panic (PanicString different_type))"
    by blast
  from registration_panics
         [of registered_once example_opts ?ev' ?st1 ?st1 _ _ "[''instance'']" _ InconsistentDescriptor]
       a' b'
  have d': "newGaugeVec registered_once example_opts [''instance'']
              = (?st1, Panic (PanicError InconsistentDescriptor))"
    by blast
  from a b c d a' b' d' show ?thesis by blast
qed

end
